theory Spec2Isabelle
  imports Main "HOL-Library.Sublist"
begin

section \<open>JavaScript strings and numbers\<close>

text \<open>
  A JavaScript string is modelled as a \<^typ>\<open>string\<close>: a list of characters standing for
  its code units, so \<open>length\<close> is \<open>.length\<close>. \<open>s.substring(a, b)\<close> with
  \<open>0 \<le> a \<le> b\<close> is \<open>take (b - a) (drop a s)\<close>, \<open>s.substring(a)\<close> is \<open>drop a s\<close>.
\<close>

definition substring :: "string \<Rightarrow> nat \<Rightarrow> nat \<Rightarrow> string" where
  "substring s a b = (let lo = min a b; hi = max a b in take (hi - lo) (drop lo s))"

definition substring_from :: "string \<Rightarrow> nat \<Rightarrow> string" where
  "substring_from s a = drop a s"

text \<open>
  \<open>first_occ p s\<close> is the least index at which \<open>p\<close> occurs in \<open>s\<close>.
  \<open>s.indexOf(p, start)\<close> clamps \<open>start\<close> to the length of \<open>s\<close> and searches from there;
  the answer \<open>-1\<close> of JavaScript is \<open>None\<close>.
\<close>

fun first_occ :: "string \<Rightarrow> string \<Rightarrow> nat option" where
  "first_occ p [] = (if p = [] then Some 0 else None)"
| "first_occ p (c # cs) =
     (if prefix p (c # cs) then Some 0 else map_option Suc (first_occ p cs))"

definition indexOf :: "string \<Rightarrow> string \<Rightarrow> nat \<Rightarrow> nat option" where
  "indexOf s p start =
     (let k = min start (length s) in map_option (\<lambda>i. k + i) (first_occ p (drop k s)))"

text \<open>\<open>s.split(c)\<close> for a one-character separator: never empty, \<open>''''\<close> gives \<open>['''']\<close>.\<close>

fun split_on :: "'a \<Rightarrow> 'a list \<Rightarrow> 'a list list" where
  "split_on c [] = [[]]"
| "split_on c (x # xs) =
     (let r = split_on c xs in if x = c then [] # r else (x # hd r) # tl r)"

definition newline :: char where
  "newline = CHR 0x0A"

text \<open>\<open>String(n)\<close> for a natural number, and \<open>padStart(w, '0')\<close>.\<close>

fun String_of_nat :: "nat \<Rightarrow> string" where
  "String_of_nat n =
     (if n < 10 then [''0123456789'' ! n]
      else String_of_nat (n div 10) @ [''0123456789'' ! (n mod 10)])"

declare String_of_nat.simps [simp del]

definition padStart :: "string \<Rightarrow> nat \<Rightarrow> char \<Rightarrow> string" where
  "padStart s w c = replicate (w - length s) c @ s"

text \<open>
  The fields of the search pointer are JavaScript numbers. The code tests them with
  \<open>isNaN\<close> and \<open>typeof \<dots> !== 'number'\<close>; \<open>NaN\<close> stands for every value that fails
  those tests, \<open>Num n\<close> for the integer \<open>n\<close>. Comparisons with \<open>NaN\<close> are false.
\<close>

datatype jsnum = Num int | NaN

fun js_lt :: "jsnum \<Rightarrow> jsnum \<Rightarrow> bool" where
  "js_lt (Num a) (Num b) = (a < b)"
| "js_lt _ _ = False"

fun js_le :: "jsnum \<Rightarrow> jsnum \<Rightarrow> bool" where
  "js_le (Num a) (Num b) = (a \<le> b)"
| "js_le _ _ = False"

fun js_min :: "jsnum \<Rightarrow> jsnum \<Rightarrow> jsnum" where
  "js_min (Num a) (Num b) = Num (min a b)"
| "js_min _ _ = NaN"

definition MAX_SAFE_INTEGER :: int where
  "MAX_SAFE_INTEGER = 9007199254740991"

section \<open>Regular expressions\<close>

text \<open>
  The regular-expression engine belongs to the JavaScript runtime and is a parameter of
  the model. \<open>new RegExp(pattern, 'g')\<close> either throws a SyntaxError (\<open>None\<close>) or gives a
  compiled expression. A compiled expression is its matcher: \<open>r s k\<close> is the length of the
  match of \<open>r\<close> that starts exactly at index \<open>k\<close> of \<open>s\<close>, if there is one.
  \<open>regex_exec r s lastIndex\<close> is \<open>r.exec(s)\<close> for a global expression: it fails when
  \<open>lastIndex\<close> is beyond the end, and otherwise tries the matcher at \<open>lastIndex\<close>,
  \<open>lastIndex + 1\<close>, \<dots> up to the end of the string. The result is (index, length of the
  matched text); afterwards \<open>r.lastIndex\<close> is index + length. A match is a part of the
  string, so its length is at most what is left of the string after its index.
\<close>

type_synonym regex = "string \<Rightarrow> nat \<Rightarrow> nat option"

type_synonym regex_engine = "string \<Rightarrow> regex option"

function regex_exec :: "regex \<Rightarrow> string \<Rightarrow> nat \<Rightarrow> (nat \<times> nat) option" where
  "regex_exec r s k =
     (if length s < k then None
      else case r s k of
             Some len \<Rightarrow> Some (k, min len (length s - k))
           | None \<Rightarrow> regex_exec r s (Suc k))"
  by pat_completeness auto
termination
  by (relation "measure (\<lambda>(r, s, k). Suc (length s) - k)") auto

declare regex_exec.simps [simp del]

section \<open>The project backup record\<close>

text \<open>
  A scene's \<open>text\<close> field is a JSON string holding \<open>{blocks: [...]}\<close>. \<open>JSON.parse\<close> is
  not modelled: the field is given by what parsing it yields.
  \<^item> \<open>NullScene\<close>: the entry of the \<open>scenes\<close> array is null, so it has no field to read
    (the \<open>title\<close> of such an entry is of no account);
  \<^item> \<open>Unparsable\<close>: the text is not a string, is blank, or \<open>JSON.parse\<close> throws on it or
    yields null;
  \<^item> \<open>NotArray\<close>: it parses, and \<open>blocks\<close> is neither an array nor a string;
  \<^item> \<open>StringBlocks\<close>: it parses, and \<open>blocks\<close> is a string;
  \<^item> \<open>Blocks bs\<close>: it parses to the array \<open>bs\<close>.
  An array entry is a text block (\<open>type === 'text'\<close> with a string \<open>text\<close>), null, or
  any other value; \<open>OtherBlock t\<close> records the \<open>text\<close> field of such a value when it
  is a string.
\<close>

datatype Block = TextBlock string | OtherBlock "string option" | NullBlock

datatype SceneText = NullScene | Unparsable | NotArray | StringBlocks | Blocks "Block list"

record Scene =
  title :: "string option"
  stext :: SceneText

record Revision =
  date :: int
  scenes :: "Scene list"

record BackupData =
  last_update_date :: int
  last_backup_date :: int
  revisions :: "Revision list"

record FindReplaceMatch =
  sceneIndex :: nat
  blockIndex :: nat
  matchIndex :: nat
  matchLength :: nat
  chapterTitle :: string
  matchLine :: string

record FindReplacePointer =
  scene :: jsnum
  block :: jsnum
  offset :: jsnum

definition origin :: FindReplacePointer where
  "origin = \<lparr>scene = Num 0, block = Num 0, offset = Num 0\<rparr>"

text \<open>\<open>blocks[j]\<close>: out of range it is \<open>undefined\<close>, which the code treats as null.\<close>

definition block_at :: "Block list \<Rightarrow> int \<Rightarrow> Block" where
  "block_at blocks j = (if 0 \<le> j \<and> j < int (length blocks) then blocks ! nat j else NullBlock)"

definition blocks_of :: "SceneText \<Rightarrow> Block list" where
  "blocks_of t = (case t of Blocks bs \<Rightarrow> bs | _ \<Rightarrow> [])"

text \<open>\<open>scenes[i]\<close>: out of range it is \<open>undefined\<close>, which the code treats as null.\<close>

definition scene_at :: "Scene list \<Rightarrow> int \<Rightarrow> Scene" where
  "scene_at scs i =
     (if 0 \<le> i \<and> i < int (length scs) then scs ! nat i else \<lparr>title = None, stext = NullScene\<rparr>)"

section \<open>Search\<close>

text \<open>
  The ways \<open>findNextMatchInternal\<close> and \<open>findPreviousMatchInternal\<close> return:
  \<open>Hit m p\<close> stores \<open>p\<close> in \<open>frPtrRef.current\<close> and returns the match \<open>m\<close>;
  \<open>RegexError\<close> shows the "Regex Error" toast and returns null; \<open>Miss\<close> returns null.
\<close>

datatype search_outcome = Hit FindReplaceMatch FindReplacePointer | RegexError | Miss

datatype block_search = BadRegex | Found nat nat | NotFound

text \<open>The line of the block that holds the match (the loop over \<open>lines\<close>).\<close>

fun find_line :: "string list \<Rightarrow> nat \<Rightarrow> nat \<Rightarrow> string" where
  "find_line [] mi charCount = []"
| "find_line (line # lines) mi charCount =
     (if charCount \<le> mi \<and> mi \<le> charCount + length line then line
      else find_line lines mi (charCount + length line + 1))"

definition make_match ::
  "int \<Rightarrow> int \<Rightarrow> string option \<Rightarrow> string \<Rightarrow> nat \<Rightarrow> nat \<Rightarrow> FindReplaceMatch" where
  "make_match i j ttl blockText mi ml =
     \<lparr>sceneIndex = nat i, blockIndex = nat j, matchIndex = mi, matchLength = ml,
      chapterTitle = (case ttl of
                        Some t \<Rightarrow> if t = [] then ''Scene '' @ String_of_nat (nat (i + 1)) else t
                      | None \<Rightarrow> ''Scene '' @ String_of_nat (nat (i + 1))),
      matchLine = find_line (split_on newline blockText) mi 0\<rparr>"

text \<open>The \<open>try\<close> block of \<open>findNextMatchInternal\<close>: one search in one block.\<close>

definition search_block_next ::
  "regex_engine \<Rightarrow> string \<Rightarrow> bool \<Rightarrow> string \<Rightarrow> nat \<Rightarrow> block_search" where
  "search_block_next RegExp pattern useRegex blockText searchStart =
     (if useRegex then
        (case RegExp pattern of
           None \<Rightarrow> BadRegex
         | Some regex \<Rightarrow>
             (case regex_exec regex blockText searchStart of
                Some (mi, ml) \<Rightarrow> Found mi ml
              | None \<Rightarrow> NotFound))
      else
        (case indexOf blockText pattern searchStart of
           Some mi \<Rightarrow> Found mi (length pattern)
         | None \<Rightarrow> NotFound))"

definition at_block :: "FindReplacePointer \<Rightarrow> int \<Rightarrow> int \<Rightarrow> bool" where
  "at_block tempPtr i j = (scene tempPtr = Num i \<and> block tempPtr = Num j)"

definition reset_offset :: "FindReplacePointer \<Rightarrow> int \<Rightarrow> int \<Rightarrow> jsnum \<Rightarrow> FindReplacePointer" where
  "reset_offset tempPtr i j v = (if at_block tempPtr i j then tempPtr\<lparr>offset := v\<rparr> else tempPtr)"

definition reset_block :: "FindReplacePointer \<Rightarrow> int \<Rightarrow> jsnum \<Rightarrow> FindReplacePointer" where
  "reset_block tempPtr i v =
     (if scene tempPtr = Num i then tempPtr\<lparr>block := v, offset := v\<rparr> else tempPtr)"

text \<open>
  The loop over the blocks of scene \<open>i\<close>, from block \<open>j\<close>. \<open>Inl\<close> is a return from the
  whole function, \<open>Inr\<close> the pointer copy \<open>tempPtr\<close> when the loop ends.
\<close>

function findNext_blocks ::
  "regex_engine \<Rightarrow> string \<Rightarrow> bool \<Rightarrow> int \<Rightarrow> string option \<Rightarrow> Block list \<Rightarrow> int \<Rightarrow>
   FindReplacePointer \<Rightarrow> search_outcome + FindReplacePointer" where
  "findNext_blocks RegExp pattern useRegex i ttl blocks j tempPtr =
     (if \<not> j < int (length blocks) then Inr tempPtr
      else case block_at blocks j of
        TextBlock blockText \<Rightarrow>
          (let searchStart = (if at_block tempPtr i j then offset tempPtr else Num 0);
               searchStart = (case searchStart of NaN \<Rightarrow> 0 | Num n \<Rightarrow> if n < 0 then 0 else nat n)
           in if length blockText \<le> searchStart \<and> 0 < length blockText then
                findNext_blocks RegExp pattern useRegex i ttl blocks (j + 1)
                  (reset_offset tempPtr i j (Num 0))
              else if pattern = [] \<and> \<not> useRegex then
                findNext_blocks RegExp pattern useRegex i ttl blocks (j + 1)
                  (reset_offset tempPtr i j (Num 0))
              else case search_block_next RegExp pattern useRegex blockText searchStart of
                BadRegex \<Rightarrow> Inl RegexError
              | Found mi ml \<Rightarrow>
                  Inl (Hit (make_match i j ttl blockText mi ml)
                         \<lparr>scene = Num i, block = Num j,
                          offset = Num (int mi + (if 0 < ml then int ml else 1))\<rparr>)
              | NotFound \<Rightarrow>
                  findNext_blocks RegExp pattern useRegex i ttl blocks (j + 1)
                    (reset_offset tempPtr i j (Num 0)))
      | _ \<Rightarrow>
          findNext_blocks RegExp pattern useRegex i ttl blocks (j + 1)
            (reset_offset tempPtr i j (Num 0)))"
  by pat_completeness auto
termination
  by (relation "measure (\<lambda>(RegExp, pattern, useRegex, i, ttl, blocks, j, tempPtr).
                  nat (int (length blocks) - j))") auto

declare findNext_blocks.simps [simp del]

text \<open>The loop over the scenes, from scene \<open>i\<close>.\<close>

function findNext_scenes ::
  "regex_engine \<Rightarrow> string \<Rightarrow> bool \<Rightarrow> Scene list \<Rightarrow> int \<Rightarrow> FindReplacePointer \<Rightarrow>
   search_outcome" where
  "findNext_scenes RegExp pattern useRegex scs i tempPtr =
     (if \<not> i < int (length scs) then Miss
      else let sceneObj = scene_at scs i in
        case stext sceneObj of
          NullScene \<Rightarrow>
            findNext_scenes RegExp pattern useRegex scs (i + 1) (reset_block tempPtr i (Num 0))
        | Unparsable \<Rightarrow>
            findNext_scenes RegExp pattern useRegex scs (i + 1) (reset_block tempPtr i (Num 0))
        | _ \<Rightarrow>
            (case (if scene tempPtr = Num i then block tempPtr else Num 0) of
               NaN \<Rightarrow>
                 findNext_scenes RegExp pattern useRegex scs (i + 1)
                   (reset_block tempPtr i (Num 0))
             | Num j \<Rightarrow>
                 (case findNext_blocks RegExp pattern useRegex i (title sceneObj)
                         (blocks_of (stext sceneObj)) j tempPtr of
                    Inl out \<Rightarrow> out
                  | Inr tempPtr' \<Rightarrow>
                      findNext_scenes RegExp pattern useRegex scs (i + 1)
                        (reset_block tempPtr' i (Num 0)))))"
  by pat_completeness auto
termination
  by (relation "measure (\<lambda>(RegExp, pattern, useRegex, scs, i, tempPtr).
                  nat (int (length scs) - i))") auto

declare findNext_scenes.simps [simp del]

definition findNextMatchInternal ::
  "regex_engine \<Rightarrow> string \<Rightarrow> bool \<Rightarrow> BackupData \<Rightarrow> FindReplacePointer \<Rightarrow> search_outcome" where
  "findNextMatchInternal RegExp pattern useRegex currentFrData currentFrPtr =
     (case revisions currentFrData of
        [] \<Rightarrow> Miss
      | rev0 # _ \<Rightarrow>
          (let tempPtr = (case scene currentFrPtr of
                            NaN \<Rightarrow> origin
                          | Num n \<Rightarrow> if n < 0 then origin else currentFrPtr)
           in case scene tempPtr of
                NaN \<Rightarrow> Miss
              | Num n \<Rightarrow>
                  if int (length (scenes rev0)) \<le> n then Miss
                  else findNext_scenes RegExp pattern useRegex (scenes rev0) n tempPtr))"


subsection \<open>Backward search\<close>

text \<open>
  The regular-expression loop of \<open>findPreviousMatchInternal\<close>: every match that starts
  before \<open>searchEnd\<close>, in order; \<open>lastIndex\<close> is \<open>regex.lastIndex\<close>.
\<close>

function collect_regex :: "regex \<Rightarrow> string \<Rightarrow> nat \<Rightarrow> jsnum \<Rightarrow> (nat \<times> nat) list" where
  "collect_regex regex blockText lastIndex searchEnd =
     (case regex_exec regex blockText lastIndex of
        None \<Rightarrow> []
      | Some (mi, ml) \<Rightarrow>
          if js_lt (Num (int mi)) searchEnd then
            (mi, ml) # collect_regex regex blockText
                         (if mi + ml = mi \<and> ml = 0 then mi + ml + 1 else mi + ml) searchEnd
          else [])"
  by pat_completeness auto
termination
proof (relation "measure (\<lambda>(regex, blockText, lastIndex, searchEnd).
                   Suc (length blockText) - lastIndex)")
  show "wf (measure (\<lambda>(regex :: regex, blockText :: string, lastIndex :: nat, searchEnd :: jsnum).
                   Suc (length blockText) - lastIndex))"
    by simp
next
  fix regex :: regex and blockText lastIndex and searchEnd :: jsnum and x2 mi ml
  assume ex: "regex_exec regex blockText lastIndex = Some x2" and x2: "(mi, ml) = x2"
  have bounds: "k \<le> a \<and> a \<le> length s" if "regex_exec r s k = Some (a, b)" for r s k a b
    using that
  proof (induction r s k rule: regex_exec.induct)
    case (1 r s k)
    show ?case
    proof (cases "length s < k")
      case True
      with "1.prems" show ?thesis by (simp add: regex_exec.simps)
    next
      case False
      show ?thesis
      proof (cases "r s k")
        case None
        with False "1.prems" have "regex_exec r s (Suc k) = Some (a, b)"
          by (simp add: regex_exec.simps [of r s k])
        with "1.IH" False None show ?thesis by fastforce
      next
        case (Some len)
        with False "1.prems" show ?thesis
          by (auto simp: regex_exec.simps [of r s k])
      qed
    qed
  qed
  from ex x2 have "lastIndex \<le> mi \<and> mi \<le> length blockText"
    using bounds [of regex blockText lastIndex mi ml] by simp
  then show "((regex, blockText, if mi + ml = mi \<and> ml = 0 then mi + ml + 1 else mi + ml,
               searchEnd), regex, blockText, lastIndex, searchEnd)
             \<in> measure (\<lambda>(regex, blockText, lastIndex, searchEnd).
                   Suc (length blockText) - lastIndex)"
    by auto
qed

declare collect_regex.simps [simp del]

text \<open>
  The literal loop of \<open>findPreviousMatchInternal\<close>: \<open>from\<close> is \<open>currentIdx + 1\<close>,
  the last argument the array \<open>matchesInBlock\<close> so far. With an
  empty pattern the loop of the source need not end, so the result is an option and
  \<open>None\<close> is "does not return".
\<close>

partial_function (option) collect_literal ::
  "string \<Rightarrow> string \<Rightarrow> nat \<Rightarrow> jsnum \<Rightarrow> (nat \<times> nat) list \<Rightarrow> (nat \<times> nat) list option"
  where
  "collect_literal blockText pattern from searchEnd matchesInBlock =
     (case indexOf blockText pattern from of
        None \<Rightarrow> Some matchesInBlock
      | Some currentIdx \<Rightarrow>
          if js_lt (Num (int currentIdx)) searchEnd then
            collect_literal blockText pattern (currentIdx + 1) searchEnd
              (matchesInBlock @ [(currentIdx, length pattern)])
          else Some matchesInBlock)"

declare collect_literal.simps [code]

text \<open>The \<open>try\<close> block of \<open>findPreviousMatchInternal\<close> and the choice of the last match.\<close>

definition search_block_prev ::
  "regex_engine \<Rightarrow> string \<Rightarrow> bool \<Rightarrow> string \<Rightarrow> jsnum \<Rightarrow> block_search option" where
  "search_block_prev RegExp pattern useRegex blockText searchEnd =
     (let pick = (\<lambda>matchesInBlock.
            if matchesInBlock = [] then NotFound
            else Found (fst (last matchesInBlock)) (snd (last matchesInBlock)))
      in if useRegex then
           (case RegExp pattern of
              None \<Rightarrow> Some BadRegex
            | Some regex \<Rightarrow> Some (pick (collect_regex regex blockText 0 searchEnd)))
         else map_option pick (collect_literal blockText pattern 0 searchEnd []))"

function findPrevious_blocks ::
  "regex_engine \<Rightarrow> string \<Rightarrow> bool \<Rightarrow> int \<Rightarrow> string option \<Rightarrow> Block list \<Rightarrow> int \<Rightarrow>
   FindReplacePointer \<Rightarrow> (search_outcome + FindReplacePointer) option" where
  "findPrevious_blocks RegExp pattern useRegex i ttl blocks j tempPtr =
     (if \<not> 0 \<le> j then Some (Inr tempPtr)
      else case block_at blocks j of
        TextBlock blockText \<Rightarrow>
          (let searchEnd = (if at_block tempPtr i j then offset tempPtr
                            else Num (int (length blockText)))
           in if js_le searchEnd (Num 0) \<and> 0 < length blockText then
                findPrevious_blocks RegExp pattern useRegex i ttl blocks (j - 1)
                  (reset_offset tempPtr i j (Num MAX_SAFE_INTEGER))
              else if pattern = [] \<and> \<not> useRegex then
                findPrevious_blocks RegExp pattern useRegex i ttl blocks (j - 1)
                  (reset_offset tempPtr i j (Num MAX_SAFE_INTEGER))
              else case search_block_prev RegExp pattern useRegex blockText searchEnd of
                None \<Rightarrow> None
              | Some BadRegex \<Rightarrow> Some (Inl RegexError)
              | Some (Found mi ml) \<Rightarrow>
                  Some (Inl (Hit (make_match i j ttl blockText mi ml)
                               \<lparr>scene = Num i, block = Num j, offset = Num (int mi)\<rparr>))
              | Some NotFound \<Rightarrow>
                  findPrevious_blocks RegExp pattern useRegex i ttl blocks (j - 1)
                    (reset_offset tempPtr i j (Num MAX_SAFE_INTEGER)))
      | _ \<Rightarrow>
          findPrevious_blocks RegExp pattern useRegex i ttl blocks (j - 1)
            (reset_offset tempPtr i j (Num MAX_SAFE_INTEGER)))"
  by pat_completeness auto
termination
  by (relation "measure (\<lambda>(RegExp, pattern, useRegex, i, ttl, blocks, j, tempPtr).
                  nat (j + 1))") auto

declare findPrevious_blocks.simps [simp del]

function findPrevious_scenes ::
  "regex_engine \<Rightarrow> string \<Rightarrow> bool \<Rightarrow> Scene list \<Rightarrow> int \<Rightarrow> FindReplacePointer \<Rightarrow>
   search_outcome option" where
  "findPrevious_scenes RegExp pattern useRegex scs i tempPtr =
     (if \<not> 0 \<le> i then Some Miss
      else let sceneObj = scene_at scs i in
        case stext sceneObj of
          NullScene \<Rightarrow>
            findPrevious_scenes RegExp pattern useRegex scs (i - 1)
              (reset_block tempPtr i (Num MAX_SAFE_INTEGER))
        | Unparsable \<Rightarrow>
            findPrevious_scenes RegExp pattern useRegex scs (i - 1)
              (reset_block tempPtr i (Num MAX_SAFE_INTEGER))
        | _ \<Rightarrow>
            (let blocks = blocks_of (stext sceneObj);
                 startBlock = (if scene tempPtr = Num i
                               then js_min (block tempPtr) (Num (int (length blocks) - 1))
                               else Num (int (length blocks) - 1))
             in case startBlock of
               NaN \<Rightarrow>
                 findPrevious_scenes RegExp pattern useRegex scs (i - 1)
                   (reset_block tempPtr i (Num MAX_SAFE_INTEGER))
             | Num j \<Rightarrow>
                 (case findPrevious_blocks RegExp pattern useRegex i (title sceneObj)
                         blocks j tempPtr of
                    None \<Rightarrow> None
                  | Some (Inl out) \<Rightarrow> Some out
                  | Some (Inr tempPtr') \<Rightarrow>
                      findPrevious_scenes RegExp pattern useRegex scs (i - 1)
                        (reset_block tempPtr' i (Num MAX_SAFE_INTEGER)))))"
  by pat_completeness auto
termination
  by (relation "measure (\<lambda>(RegExp, pattern, useRegex, scs, i, tempPtr). nat (i + 1))") auto

declare findPrevious_scenes.simps [simp del]

definition findPreviousMatchInternal ::
  "regex_engine \<Rightarrow> string \<Rightarrow> bool \<Rightarrow> BackupData \<Rightarrow> FindReplacePointer \<Rightarrow>
   search_outcome option" where
  "findPreviousMatchInternal RegExp pattern useRegex currentFrData currentFrPtr =
     (case revisions currentFrData of
        [] \<Rightarrow> Some Miss
      | rev0 # _ \<Rightarrow>
          (let n = int (length (scenes rev0));
               dflt = \<lparr>scene = Num (n - 1), block = Num MAX_SAFE_INTEGER,
                       offset = Num MAX_SAFE_INTEGER\<rparr>;
               tempPtr = (case scene currentFrPtr of
                            NaN \<Rightarrow> dflt
                          | Num k \<Rightarrow> if n \<le> k then dflt else currentFrPtr)
           in case scene tempPtr of
                NaN \<Rightarrow> Some Miss
              | Num k \<Rightarrow>
                  if k < 0 then Some Miss
                  else findPrevious_scenes RegExp pattern useRegex (scenes rev0) k tempPtr))"


section \<open>The find/replace session\<close>

text \<open>
  The state of the Backup Utility that find and replace use: the loaded record
  (\<open>frData\<close>), the pointer (\<open>frPtrRef.current\<close>), the last match (\<open>frMatchRef.current\<close>),
  the status line and the toasts shown so far. The pattern, the regex switch and the
  replacement text are inputs of the handlers.
\<close>

datatype toast =
    NoBackupLoaded | EmptyPattern | RegexErrorToast | NoCurrentMatch | MatchReplaced
  | ErrorReplacing | ErrorProcessingScene "string option" | ReplacementsMade nat
  | LoadedToast | ErrorLoading

datatype display =
    InitialDisplay | BackupLoaded | ErrorLoadingDisplay | MatchFoundIn string string
  | NoMoreMatches string | NoPreviousMatches string | MatchReplacedDisplay | ReplacedCount nat

record fr_state =
  frData :: "BackupData option"
  frPtr :: FindReplacePointer
  frMatch :: "FindReplaceMatch option"
  currentMatchDisplay :: display
  toasts :: "toast list"

definition showToast :: "toast \<Rightarrow> fr_state \<Rightarrow> fr_state" where
  "showToast t s = s\<lparr>toasts := toasts s @ [t]\<rparr>"

definition initial_state :: fr_state where
  "initial_state =
     \<lparr>frData = None, frPtr = origin, frMatch = None, currentMatchDisplay = InitialDisplay,
      toasts = []\<rparr>"

text \<open>
  \<open>handleFrBackupFileChange\<close> for a file that parses to \<open>parsedData\<close>: a record with no
  first revision is refused.
\<close>

definition handleFrBackupFileChange :: "BackupData \<Rightarrow> fr_state \<Rightarrow> fr_state" where
  "handleFrBackupFileChange parsedData s =
     (if revisions parsedData \<noteq> [] then
        showToast LoadedToast
          (s\<lparr>frData := Some parsedData, frPtr := origin, frMatch := None,
             currentMatchDisplay := BackupLoaded\<rparr>)
      else
        showToast ErrorLoading (s\<lparr>frData := None, currentMatchDisplay := ErrorLoadingDisplay\<rparr>))"

definition handleFindNextMatch :: "regex_engine \<Rightarrow> string \<Rightarrow> bool \<Rightarrow> fr_state \<Rightarrow> fr_state" where
  "handleFindNextMatch RegExp findPattern useRegexBackup s =
     (case frData s of
        None \<Rightarrow> showToast NoBackupLoaded s
      | Some d \<Rightarrow>
          if findPattern = [] \<and> \<not> useRegexBackup then showToast EmptyPattern s
          else case findNextMatchInternal RegExp findPattern useRegexBackup d (frPtr s) of
            Hit m p \<Rightarrow>
              s\<lparr>frPtr := p, frMatch := Some m,
                currentMatchDisplay := MatchFoundIn (chapterTitle m) (matchLine m)\<rparr>
          | RegexError \<Rightarrow>
              (showToast RegexErrorToast s)
                \<lparr>frMatch := None, currentMatchDisplay := NoMoreMatches findPattern\<rparr>
          | Miss \<Rightarrow> s\<lparr>frMatch := None, currentMatchDisplay := NoMoreMatches findPattern\<rparr>)"

definition handleFindPreviousMatch ::
  "regex_engine \<Rightarrow> string \<Rightarrow> bool \<Rightarrow> fr_state \<Rightarrow> fr_state option" where
  "handleFindPreviousMatch RegExp findPattern useRegexBackup s =
     (case frData s of
        None \<Rightarrow> Some (showToast NoBackupLoaded s)
      | Some d \<Rightarrow>
          if findPattern = [] \<and> \<not> useRegexBackup then Some (showToast EmptyPattern s)
          else case findPreviousMatchInternal RegExp findPattern useRegexBackup d (frPtr s) of
            None \<Rightarrow> None
          | Some (Hit m p) \<Rightarrow>
              Some (s\<lparr>frPtr := p, frMatch := Some m,
                      currentMatchDisplay := MatchFoundIn (chapterTitle m) (matchLine m)\<rparr>)
          | Some RegexError \<Rightarrow>
              Some ((showToast RegexErrorToast s)
                      \<lparr>frMatch := None, currentMatchDisplay := NoPreviousMatches findPattern\<rparr>)
          | Some Miss \<Rightarrow>
              Some (s\<lparr>frMatch := None, currentMatchDisplay := NoPreviousMatches findPattern\<rparr>))"

section \<open>Replace\<close>

text \<open>
  The \<open>try\<close> block of \<open>handleReplaceMatch\<close> on the copy of the record: \<open>None\<close> is a
  TypeError (no first revision, no such scene, a scene that does not parse to blocks, no
  such block, a block with no string \<open>text\<close>), which the handler catches.
\<close>

definition replace_in_block :: "Block \<Rightarrow> nat \<Rightarrow> nat \<Rightarrow> string \<Rightarrow> Block option" where
  "replace_in_block blockToChange mi ml replaceText =
     (let splice = (\<lambda>oldText. substring oldText 0 mi @ replaceText @ substring_from oldText (mi + ml))
      in case blockToChange of
           TextBlock oldText \<Rightarrow> Some (TextBlock (splice oldText))
         | OtherBlock (Some oldText) \<Rightarrow> Some (OtherBlock (Some (splice oldText)))
         | OtherBlock None \<Rightarrow> None
         | NullBlock \<Rightarrow> None)"

definition replace_in_data :: "BackupData \<Rightarrow> FindReplaceMatch \<Rightarrow> string \<Rightarrow> BackupData option" where
  "replace_in_data d m replaceText =
     (case revisions d of
        [] \<Rightarrow> None
      | rev0 # revs \<Rightarrow>
          if \<not> sceneIndex m < length (scenes rev0) then None
          else let sc = scenes rev0 ! sceneIndex m in
            case stext sc of
              Blocks blocks \<Rightarrow>
                if \<not> blockIndex m < length blocks then None
                else (case replace_in_block (blocks ! blockIndex m) (matchIndex m) (matchLength m)
                             replaceText of
                        None \<Rightarrow> None
                      | Some b \<Rightarrow>
                          Some (d\<lparr>revisions :=
                                  rev0\<lparr>scenes := (scenes rev0)
                                         [sceneIndex m :=
                                            sc\<lparr>stext := Blocks (blocks[blockIndex m := b])\<rparr>]\<rparr>
                                  # revs\<rparr>))
            | _ \<Rightarrow> None)"

definition handleReplaceMatch :: "string \<Rightarrow> fr_state \<Rightarrow> fr_state" where
  "handleReplaceMatch replaceText s =
     (case (frData s, frMatch s) of
        (Some d, Some m) \<Rightarrow>
          (case replace_in_data d m replaceText of
             Some newFrData \<Rightarrow>
               (showToast MatchReplaced (s\<lparr>frData := Some newFrData\<rparr>))
                 \<lparr>frPtr := \<lparr>scene = Num (int (sceneIndex m)), block = Num (int (blockIndex m)),
                            offset = Num (int (matchIndex m) + int (length replaceText))\<rparr>,
                  frMatch := None, currentMatchDisplay := MatchReplacedDisplay\<rparr>
           | None \<Rightarrow> showToast ErrorReplacing s)
      | _ \<Rightarrow> showToast NoCurrentMatch s)"

text \<open>
  The literal loop of \<open>handleReplaceAllMatches\<close> in one block; the result is the new
  block text and the number of replacements made in the block. With an empty pattern the
  loop of the source does not end (\<open>None\<close>); the handler refuses that pattern before.
\<close>

partial_function (option) replace_literal_loop ::
  "string \<Rightarrow> string \<Rightarrow> string \<Rightarrow> nat \<Rightarrow> string \<Rightarrow> nat \<Rightarrow> (string \<times> nat) option" where
  "replace_literal_loop originalBlockText findPattern replaceText lastIndex newBlockText n =
     (case indexOf originalBlockText findPattern lastIndex of
        None \<Rightarrow> Some (newBlockText @ substring_from originalBlockText lastIndex, n)
      | Some foundIndex \<Rightarrow>
          replace_literal_loop originalBlockText findPattern replaceText
            (foundIndex + length findPattern)
            (newBlockText @ substring originalBlockText lastIndex foundIndex @ replaceText)
            (n + 1))"

declare replace_literal_loop.simps [code]

text \<open>
  \<open>s.replace(regex, replaceValue)\<close> for a global expression, after ECMAScript: all
  matches are collected with \<open>exec\<close> from \<open>lastIndex = 0\<close> (an empty match advances
  \<open>lastIndex\<close> by one). When \<open>replaceValue\<close> is a function it is called once for each
  match with the matched text, and what it returns is put in place of the match as it is.
  When it is a string, it is a template that \<open>GetSubstitution\<close> expands for each match:
  \<open>$$\<close> is a dollar sign, \<open>$&\<close> the matched text, \<open>$`\<close> the text before the match and
  \<open>$'\<close> the text after it. The expressions of this model have no groups, for which
  ECMAScript leaves \<open>$1\<close> to \<open>$99\<close> and \<open>$<\<close> in a template as they are.
\<close>

datatype replaceValue = ReplaceString string | ReplaceFunction "string \<Rightarrow> string"

fun GetSubstitution :: "string \<Rightarrow> string \<Rightarrow> nat \<Rightarrow> string \<Rightarrow> string" where
  "GetSubstitution matched str position (a # b # templ) =
     (if a = CHR ''$'' \<and> b = CHR ''$'' then
        CHR ''$'' # GetSubstitution matched str position templ
      else if a = CHR ''$'' \<and> b = CHR ''&'' then
        matched @ GetSubstitution matched str position templ
      else if a = CHR ''$'' \<and> b = CHR 0x60 then
        substring str 0 position @ GetSubstitution matched str position templ
      else if a = CHR ''$'' \<and> b = CHR 0x27 then
        substring_from str (position + length matched)
          @ GetSubstitution matched str position templ
      else a # GetSubstitution matched str position (b # templ))"
| "GetSubstitution matched str position templ = templ"

fun splice_matches ::
  "string \<Rightarrow> (nat \<times> nat) list \<Rightarrow> nat \<Rightarrow> (string \<Rightarrow> nat \<Rightarrow> string) \<Rightarrow> string" where
  "splice_matches s [] nextSourcePosition replacement = substring_from s nextSourcePosition"
| "splice_matches s ((mi, ml) # ms) nextSourcePosition replacement =
     (if nextSourcePosition \<le> mi then
        substring s nextSourcePosition mi @ replacement (substring s mi (mi + ml)) mi
          @ splice_matches s ms (mi + ml) replacement
      else splice_matches s ms nextSourcePosition replacement)"

definition regex_matches :: "regex \<Rightarrow> string \<Rightarrow> (nat \<times> nat) list" where
  "regex_matches regex s = collect_regex regex s 0 (Num (int (length s) + 1))"

definition String_replace :: "regex \<Rightarrow> string \<Rightarrow> replaceValue \<Rightarrow> string" where
  "String_replace regex s v =
     splice_matches s (regex_matches regex s) 0
       (case v of
          ReplaceFunction callback \<Rightarrow> (\<lambda>matched position. callback matched)
        | ReplaceString templ \<Rightarrow> (\<lambda>matched position. GetSubstitution matched s position templ))"

text \<open>
  The loop over the blocks of one scene. \<open>todo\<close> are the blocks still to visit, \<open>done\<close>
  the blocks already visited (mutated in place in the source). The result is
  (the blocks, or \<open>None\<close> when an exception left the loop; \<open>sceneModified\<close>;
  \<open>replacementsCount\<close>), or \<open>None\<close> when the literal loop does not return. A null entry
  has no \<open>type\<close> to read, and an expression that does not compile makes \<open>new RegExp\<close>
  throw: both leave the loop with what has been counted so far. In the regex path the
  callback of the source counts one replacement each time it is called.
\<close>

fun replaceAll_blocks ::
  "regex_engine \<Rightarrow> string \<Rightarrow> string \<Rightarrow> bool \<Rightarrow> Block list \<Rightarrow> Block list \<Rightarrow> bool \<Rightarrow> nat \<Rightarrow>
   (Block list option \<times> bool \<times> nat) option" where
  "replaceAll_blocks RegExp findPattern replaceText useRegexBackup [] done sceneModified
     replacementsCount = Some (Some done, sceneModified, replacementsCount)"
| "replaceAll_blocks RegExp findPattern replaceText useRegexBackup (b # todo) done sceneModified
     replacementsCount =
     (case b of
        NullBlock \<Rightarrow> Some (None, sceneModified, replacementsCount)
      | OtherBlock t \<Rightarrow>
          replaceAll_blocks RegExp findPattern replaceText useRegexBackup todo (done @ [b])
            sceneModified replacementsCount
      | TextBlock originalBlockText \<Rightarrow>
          if \<not> 0 < length originalBlockText then
            replaceAll_blocks RegExp findPattern replaceText useRegexBackup todo (done @ [b])
              sceneModified replacementsCount
          else if useRegexBackup then
            (case RegExp findPattern of
               None \<Rightarrow> Some (None, sceneModified, replacementsCount)
             | Some regex \<Rightarrow>
                 (let n = length (regex_matches regex originalBlockText);
                      newBlockText = String_replace regex originalBlockText
                                       (ReplaceFunction (\<lambda>match. replaceText));
                      sceneModified' = (sceneModified \<or> 0 < n)
                  in replaceAll_blocks RegExp findPattern replaceText useRegexBackup todo
                       (done @ [if sceneModified' then TextBlock newBlockText else b])
                       sceneModified' (replacementsCount + n)))
          else
            (case replace_literal_loop originalBlockText findPattern replaceText 0 [] 0 of
               None \<Rightarrow> None
             | Some (newBlockText, n) \<Rightarrow>
                 (let sceneModified' = (sceneModified \<or> 0 < n)
                  in replaceAll_blocks RegExp findPattern replaceText useRegexBackup todo
                       (done @ [if sceneModified' then TextBlock newBlockText else b])
                       sceneModified' (replacementsCount + n))))"

text \<open>
  The loop over the scenes, with its \<open>try\<close>/\<open>catch\<close>. A scene whose blocks throw keeps its
  text, shows a toast, and keeps the replacements already counted; so does a scene whose
  text does not parse, or whose \<open>blocks\<close> cannot be iterated. A string can be iterated:
  its characters have no \<open>type\<close>, nothing is replaced and nothing is shown. For a null
  entry of \<open>scenes\<close> reading \<open>scene.text\<close> throws, and in the \<open>catch\<close> block reading
  \<open>scene.title\<close> throws again: the exception leaves the loop and the handler
  (\<open>ScenesThrown\<close>, with the toasts shown before).
\<close>

datatype scenes_end = ScenesDone "Scene list" nat "toast list" | ScenesThrown "toast list"

definition scene_done :: "Scene \<Rightarrow> toast list \<Rightarrow> scenes_end \<Rightarrow> scenes_end" where
  "scene_done sc ts r =
     (case r of
        ScenesDone scs n ts' \<Rightarrow> ScenesDone (sc # scs) n (ts @ ts')
      | ScenesThrown ts' \<Rightarrow> ScenesThrown (ts @ ts'))"

fun replaceAll_scenes ::
  "regex_engine \<Rightarrow> string \<Rightarrow> string \<Rightarrow> bool \<Rightarrow> Scene list \<Rightarrow> nat \<Rightarrow> scenes_end option" where
  "replaceAll_scenes RegExp findPattern replaceText useRegexBackup [] replacementsCount =
     Some (ScenesDone [] replacementsCount [])"
| "replaceAll_scenes RegExp findPattern replaceText useRegexBackup (sc # scs) replacementsCount =
     (case stext sc of
        NullScene \<Rightarrow> Some (ScenesThrown [])
      | Unparsable \<Rightarrow>
          map_option (scene_done sc [ErrorProcessingScene (title sc)])
            (replaceAll_scenes RegExp findPattern replaceText useRegexBackup scs
               replacementsCount)
      | NotArray \<Rightarrow>
          map_option (scene_done sc [ErrorProcessingScene (title sc)])
            (replaceAll_scenes RegExp findPattern replaceText useRegexBackup scs
               replacementsCount)
      | StringBlocks \<Rightarrow>
          map_option (scene_done sc [])
            (replaceAll_scenes RegExp findPattern replaceText useRegexBackup scs
               replacementsCount)
      | Blocks blocks \<Rightarrow>
          (case replaceAll_blocks RegExp findPattern replaceText useRegexBackup blocks [] False
                  replacementsCount of
             None \<Rightarrow> None
           | Some (Some blocks', sceneModified, n) \<Rightarrow>
               map_option
                 (scene_done (if sceneModified then sc\<lparr>stext := Blocks blocks'\<rparr> else sc) [])
                 (replaceAll_scenes RegExp findPattern replaceText useRegexBackup scs n)
           | Some (None, sceneModified, n) \<Rightarrow>
               map_option (scene_done sc [ErrorProcessingScene (title sc)])
                 (replaceAll_scenes RegExp findPattern replaceText useRegexBackup scs n)))"

text \<open>
  \<open>handleReplaceAllMatches\<close>; \<open>now\<close> is \<open>Date.now()\<close>. The handler returns, or an
  exception leaves it (\<open>Thrown\<close>) with the session as it is then: a record with no first
  revision makes the source throw outside every \<open>try\<close>, and so does a null scene; nothing
  is assigned then, and neither the count nor the closing toast is shown.
\<close>

datatype handler_end = Returned fr_state | Thrown fr_state

definition handleReplaceAllMatches ::
  "regex_engine \<Rightarrow> int \<Rightarrow> string \<Rightarrow> string \<Rightarrow> bool \<Rightarrow> fr_state \<Rightarrow> handler_end option" where
  "handleReplaceAllMatches RegExp now findPattern replaceText useRegexBackup s =
     (case frData s of
        None \<Rightarrow> Some (Returned (showToast NoBackupLoaded s))
      | Some d \<Rightarrow>
          if findPattern = [] \<and> \<not> useRegexBackup then Some (Returned (showToast EmptyPattern s))
          else case revisions d of
            [] \<Rightarrow> Some (Thrown s)
          | rev0 # revs \<Rightarrow>
              (case replaceAll_scenes RegExp findPattern replaceText useRegexBackup
                      (scenes rev0) 0 of
                 None \<Rightarrow> None
               | Some (ScenesThrown ts) \<Rightarrow> Some (Thrown (s\<lparr>toasts := toasts s @ ts\<rparr>))
               | Some (ScenesDone scs' replacementsCount ts) \<Rightarrow>
                   Some (Returned
                     (s\<lparr>frData :=
                          (if 0 < replacementsCount then
                             Some (d\<lparr>last_update_date := now, last_backup_date := now,
                                     revisions := rev0\<lparr>date := now, scenes := scs'\<rparr> # revs\<rparr>)
                           else frData s),
                        frPtr := origin, frMatch := None,
                        currentMatchDisplay := ReplacedCount replacementsCount,
                        toasts := toasts s @ ts @ [ReplacementsMade replacementsCount]\<rparr>))))"


section \<open>EPUB structure resolution\<close>

text \<open>
  What the browser supplies to the EPUB tool is a parameter of the model:
  \<^item> \<open>URL_pathname rel base\<close> is \<open>new URL(rel, base).pathname\<close>, \<open>None\<close> when the
    constructor throws;
  \<^item> \<open>decodeURIComponent\<close>, \<open>None\<close> when it throws;
  \<^item> \<open>TextDecoder_utf8 fatal\<close> is \<open>new TextDecoder('utf-8', {fatal: fatal}).decode\<close>,
    \<open>None\<close> when it throws, and \<open>TextDecoder_latin1\<close> is
    \<open>new TextDecoder('latin1').decode\<close>;
  \<^item> \<open>extractTextFromHtml\<close> is the text extractor, which works on the browser's DOM.
  Paths and markup attributes are strings of 8-bit characters, and so are the bytes of a
  file. The text of a chapter is a JavaScript string given by its UTF-16 code units, since
  a decoder produces characters that are not 8-bit.
\<close>

type_synonym bytes = "char list"
type_synonym utf16 = "nat list"

record platform =
  URL_pathname :: "string \<Rightarrow> string \<Rightarrow> string option"
  decodeURIComponent :: "string \<Rightarrow> string option"
  TextDecoder_utf8 :: "bool \<Rightarrow> bytes \<Rightarrow> utf16 option"
  TextDecoder_latin1 :: "bytes \<Rightarrow> utf16"
  extractTextFromHtml :: "utf16 \<Rightarrow> utf16"

text \<open>\<open>s.replace(/\/+/g, '/')\<close>.\<close>

fun collapse_slashes :: "string \<Rightarrow> string" where
  "collapse_slashes (a # b # cs) =
     (if a = CHR ''/'' \<and> b = CHR ''/'' then collapse_slashes (b # cs)
      else a # collapse_slashes (b # cs))"
| "collapse_slashes cs = cs"

definition strip_leading_slash :: "string \<Rightarrow> string" where
  "strip_leading_slash path = (case path of c # cs \<Rightarrow> if c = CHR ''/'' then cs else path | [] \<Rightarrow> [])"

definition resolvePath :: "platform \<Rightarrow> string \<Rightarrow> string \<Rightarrow> string" where
  "resolvePath P relativePath baseDirPath =
     (if relativePath = [] then []
      else if baseDirPath = [] then strip_leading_slash relativePath
      else case Option.bind (URL_pathname P relativePath (''file:///'' @ baseDirPath @ ''/''))
                  (\<lambda>pathname. decodeURIComponent P (substring_from pathname 1)) of
             Some path \<Rightarrow> path
           | None \<Rightarrow> collapse_slashes (baseDirPath @ ''/'' @ relativePath))"

text \<open>
  Documents are given by what the code's DOM queries find in them. In an XML document:
  the \<open>full-path\<close> of the first \<open>rootfile\<close>; the \<open>href\<close> of the manifest item with the
  \<open>nav\<close> property (\<open>None\<close>: no such item); the \<open>toc\<close> attribute of the spine; the \<open>href\<close>
  of the manifest item with a given id; and the \<open>navPoint\<close>s of the \<open>navMap\<close> in document
  order, each with its trimmed label and the \<open>src\<close> of its content. In an HTML document:
  the links that are direct children of the items of the table-of-contents list, each with
  its normalised text and its \<open>href\<close> (no list: no links).
\<close>

record toc_entry =
  label :: "string option"
  src :: "string option"

record xml_doc =
  rootfile :: "string option"
  navItem :: "string option option"
  spineToc :: "string option option"
  itemHref :: "string \<Rightarrow> string option"
  navPoints :: "toc_entry list"

record html_doc =
  tocLinks :: "toc_entry list"

text \<open>
  An archive entry: its bytes, and what \<open>parseXml\<close> and \<open>parseHtml\<close> make of its
  content (\<open>None\<close>: the parser returns null). Reading an entry that is in the archive
  is taken to succeed.
\<close>

record zip_entry =
  bytes :: bytes
  as_xml :: "xml_doc option"
  as_html :: "html_doc option"

type_synonym archive = "string \<Rightarrow> zip_entry option"

record Chapter =
  chapter_title :: string
  href :: string

datatype toc_type = nav | ncx

datatype status =
    NoOpf | OpfUnreadable string | OpfUnparsable string | NoTocLink | TocNotFound string
  | NcxError string | NavError string | NoContent | ErrorStatus string

definition truthy :: "string option \<Rightarrow> bool" where
  "truthy v = (case v of Some t \<Rightarrow> t \<noteq> [] | None \<Rightarrow> False)"

definition readFileFromZip :: "archive \<Rightarrow> string \<Rightarrow> (string \<times> zip_entry) option" where
  "readFileFromZip epub path =
     (let normalizedPath = strip_leading_slash path
      in map_option (\<lambda>e. (normalizedPath, e)) (epub normalizedPath))"

text \<open>\<open>s.substring(0, s.lastIndexOf('/'))\<close> when \<open>s\<close> has a slash, else the empty string.\<close>

definition dir_of :: "string \<Rightarrow> string" where
  "dir_of path =
     (if CHR ''/'' \<in> set path then rev (tl (dropWhile (\<lambda>c. c \<noteq> CHR ''/'') (rev path))) else [])"

definition findOpfPath :: "archive \<Rightarrow> (string \<times> string) option" where
  "findOpfPath epub =
     (case readFileFromZip epub ''META-INF/container.xml'' of
        None \<Rightarrow> None
      | Some (p, containerContent) \<Rightarrow>
          (case as_xml containerContent of
             None \<Rightarrow> None
           | Some containerDoc \<Rightarrow>
               if \<not> truthy (rootfile containerDoc) then None
               else Some (the (rootfile containerDoc), dir_of (the (rootfile containerDoc)))))"

definition findTocHref :: "xml_doc \<Rightarrow> (string \<times> toc_type) option" where
  "findTocHref opfDoc =
     (if navItem opfDoc \<noteq> None \<and> truthy (the (navItem opfDoc))
      then Some (the (the (navItem opfDoc)), nav)
      else if spineToc opfDoc \<noteq> None \<and> truthy (the (spineToc opfDoc))
              \<and> truthy (itemHref opfDoc (the (the (spineToc opfDoc))))
      then Some (the (itemHref opfDoc (the (the (spineToc opfDoc)))), ncx)
      else None)"

text \<open>\<open>s.split('#')[0]\<close>.\<close>

definition before_hash :: "string \<Rightarrow> string" where
  "before_hash s = takeWhile (\<lambda>c. c \<noteq> CHR ''#'') s"

text \<open>
  The body of the \<open>forEach\<close> in \<open>extractChaptersFromNcx\<close> and \<open>extractChaptersFromNav\<close>:
  both push the entry when its label and its reference are non-empty.
\<close>

definition chapter_of_entry :: "platform \<Rightarrow> string \<Rightarrow> toc_entry \<Rightarrow> Chapter list" where
  "chapter_of_entry P baseDir e =
     (if truthy (label e) \<and> truthy (src e)
      then [\<lparr>chapter_title = the (label e),
             href = resolvePath P (before_hash (the (src e))) baseDir\<rparr>]
      else [])"

definition extractChaptersFromNcx :: "platform \<Rightarrow> xml_doc \<Rightarrow> string \<Rightarrow> Chapter list" where
  "extractChaptersFromNcx P ncxDoc baseDir = concat (map (chapter_of_entry P baseDir) (navPoints ncxDoc))"

definition extractChaptersFromNav :: "platform \<Rightarrow> html_doc \<Rightarrow> string \<Rightarrow> Chapter list" where
  "extractChaptersFromNav P navDoc baseDir = concat (map (chapter_of_entry P baseDir) (tocLinks navDoc))"

text \<open>The loop of \<open>deduplicateChapters\<close>, with its two accumulators.\<close>

fun dedup_loop :: "Chapter list \<Rightarrow> Chapter list \<Rightarrow> string set \<Rightarrow> Chapter list" where
  "dedup_loop [] uniqueChapters seenHrefs = uniqueChapters"
| "dedup_loop (chapter # chapters) uniqueChapters seenHrefs =
     (if href chapter \<noteq> [] \<and> href chapter \<notin> seenHrefs
      then dedup_loop chapters (uniqueChapters @ [chapter]) (insert (href chapter) seenHrefs)
      else dedup_loop chapters uniqueChapters seenHrefs)"

definition deduplicateChapters :: "Chapter list \<Rightarrow> Chapter list" where
  "deduplicateChapters chapters = dedup_loop chapters [] {}"

text \<open>\<open>getChapterListFromEpub\<close>: the chapters, and the status message when one is set.\<close>

definition getChapterListFromEpub :: "platform \<Rightarrow> archive \<Rightarrow> Chapter list \<times> status option" where
  "getChapterListFromEpub P epub =
     (case findOpfPath epub of
        None \<Rightarrow> ([], Some NoOpf)
      | Some (opfPath, opfDir) \<Rightarrow>
          (case readFileFromZip epub opfPath of
             None \<Rightarrow> ([], Some (OpfUnreadable opfPath))
           | Some (p, opfContentFile) \<Rightarrow>
               (case as_xml opfContentFile of
                  None \<Rightarrow> ([], Some (OpfUnparsable opfPath))
                | Some opfDoc \<Rightarrow>
                    (case findTocHref opfDoc of
                       None \<Rightarrow> ([], Some NoTocLink)
                     | Some (tocHref, tocType) \<Rightarrow>
                         (let tocFullPath = resolvePath P tocHref opfDir
                          in case readFileFromZip epub tocFullPath of
                               None \<Rightarrow> ([], Some (TocNotFound tocFullPath))
                             | Some (tocPath, tocContentFile) \<Rightarrow>
                                 (case tocType of
                                    ncx \<Rightarrow>
                                      (case as_xml tocContentFile of
                                         Some ncxDoc \<Rightarrow>
                                           (deduplicateChapters
                                              (extractChaptersFromNcx P ncxDoc opfDir), None)
                                       | None \<Rightarrow> (deduplicateChapters [], Some (NcxError tocPath)))
                                  | nav \<Rightarrow>
                                      (case as_html tocContentFile of
                                         Some navDoc \<Rightarrow>
                                           (deduplicateChapters
                                              (extractChaptersFromNav P navDoc opfDir), None)
                                       | None \<Rightarrow>
                                           (deduplicateChapters [], Some (NavError tocPath)))))))))"

section \<open>Chapter extraction\<close>

text \<open>
  \<open>s.trim()\<close> removes white space and line terminators at both ends: the code units
  that JavaScript counts as such.
\<close>

definition js_space :: "nat \<Rightarrow> bool" where
  "js_space c =
     (c \<in> {0x09, 0x0A, 0x0B, 0x0C, 0x0D, 0x20, 0xA0, 0x1680, 0x2028, 0x2029, 0x202F, 0x205F,
            0x3000, 0xFEFF}
      \<or> (0x2000 \<le> c \<and> c \<le> 0x200A))"

definition trim :: "utf16 \<Rightarrow> utf16" where
  "trim s = rev (dropWhile js_space (rev (dropWhile js_space s)))"

text \<open>The line feed, and \<open>lines.join('\n')\<close>.\<close>

definition LF :: nat where
  "LF = 0x0A"

fun join_lines :: "utf16 list \<Rightarrow> utf16" where
  "join_lines [] = []"
| "join_lines [l] = l"
| "join_lines (l # ls) = l @ [LF] @ join_lines ls"

text \<open>
  The \<open>try\<close>/\<open>catch\<close> around the decoder: the decoder is made with \<open>fatal: false\<close>, and
  the \<open>catch\<close> block decodes the same bytes as Latin-1. (The warning that the \<open>catch\<close>
  block puts in the status line is replaced when the handler ends.)
\<close>

definition decode_chapter :: "platform \<Rightarrow> bytes \<Rightarrow> utf16" where
  "decode_chapter P chapterBytes =
     (case TextDecoder_utf8 P False chapterBytes of
        Some chapterHtml \<Rightarrow> chapterHtml
      | None \<Rightarrow> TextDecoder_latin1 P chapterBytes)"

definition remove_lines :: "bool \<Rightarrow> int \<Rightarrow> utf16 \<Rightarrow> utf16" where
  "remove_lines enableRemoveLines linesToRemove chapterText =
     (if enableRemoveLines \<and> 0 < linesToRemove \<and> chapterText \<noteq> [] then
        (let lines = split_on LF chapterText
         in if linesToRemove < int (length lines) then join_lines (drop (nat linesToRemove) lines)
            else [])
      else chapterText)"

definition txtFilename :: "nat \<Rightarrow> string" where
  "txtFilename i = ''C'' @ padStart (String_of_nat (i + 1)) 2 (CHR ''0'') @ ''.txt''"

text \<open>
  The body of the loop of \<open>handleExtractChapters\<close> for \<open>chapters[i]\<close>: the file it adds to
  the output archive, if it adds one.
\<close>

definition extract_chapter ::
  "platform \<Rightarrow> archive \<Rightarrow> bool \<Rightarrow> int \<Rightarrow> nat \<Rightarrow> Chapter \<Rightarrow> (string \<times> utf16) option" where
  "extract_chapter P epubZip enableRemoveLines linesToRemove i entry =
     (case epubZip (href entry) of
        None \<Rightarrow> None
      | Some chapterFile \<Rightarrow>
          (let chapterHtml = decode_chapter P (bytes chapterFile);
               chapterText = remove_lines enableRemoveLines linesToRemove
                               (extractTextFromHtml P chapterHtml)
           in if chapterText \<noteq> [] \<and> 0 < length (trim chapterText)
              then Some (txtFilename i, chapterText)
              else None))"

fun extract_loop ::
  "platform \<Rightarrow> archive \<Rightarrow> bool \<Rightarrow> int \<Rightarrow> Chapter list \<Rightarrow> nat \<Rightarrow> (string \<times> utf16) list" where
  "extract_loop P epubZip enableRemoveLines linesToRemove [] i = []"
| "extract_loop P epubZip enableRemoveLines linesToRemove (entry # chapters) i =
     (case extract_chapter P epubZip enableRemoveLines linesToRemove i entry of
        None \<Rightarrow> extract_loop P epubZip enableRemoveLines linesToRemove chapters (i + 1)
      | Some f \<Rightarrow> f # extract_loop P epubZip enableRemoveLines linesToRemove chapters (i + 1))"

text \<open>
  \<open>handleExtractChapters\<close>: the files of the output archive in the order they are added
  with \<open>filesAdded\<close>, or the error the handler reports.
\<close>

definition handleExtractChapters ::
  "platform \<Rightarrow> archive \<Rightarrow> bool \<Rightarrow> int \<Rightarrow> status + (string \<times> utf16) list \<times> nat" where
  "handleExtractChapters P epubZip enableRemoveLines linesToRemove =
     (let chapters = fst (getChapterListFromEpub P epubZip)
      in if chapters = [] then Inl (ErrorStatus ''No chapters identified in the EPUB.'')
         else let files = extract_loop P epubZip enableRemoveLines linesToRemove chapters 0
              in if 0 < length files then Inr (files, length files) else Inl NoContent)"


section \<open>Notions used to state the properties\<close>

text \<open>The text of block \<open>bi\<close> of scene \<open>si\<close> of the first revision, when it is a text block.\<close>

definition block_text_at :: "BackupData \<Rightarrow> nat \<Rightarrow> nat \<Rightarrow> string option" where
  "block_text_at d si bi =
     (case revisions d of
        [] \<Rightarrow> None
      | rev0 # _ \<Rightarrow>
          if si < length (scenes rev0) then
            (case stext (scenes rev0 ! si) of
               Blocks blocks \<Rightarrow>
                 if bi < length blocks then
                   (case blocks ! bi of TextBlock t \<Rightarrow> Some t | _ \<Rightarrow> None)
                 else None
             | _ \<Rightarrow> None)
          else None)"

text \<open>
  The number of non-overlapping occurrences of a non-empty pattern in a text, counted
  from the left: an occurrence at the front is counted and skipped whole.
\<close>

fun count_occ :: "string \<Rightarrow> string \<Rightarrow> nat" where
  "count_occ p [] = 0"
| "count_occ p (c # cs) =
     (if prefix p (c # cs) then Suc (count_occ p (drop (length p - 1) cs)) else count_occ p cs)"

definition occurrences_in_block :: "string \<Rightarrow> Block \<Rightarrow> nat" where
  "occurrences_in_block p b = (case b of TextBlock t \<Rightarrow> count_occ p t | _ \<Rightarrow> 0)"

definition occurrences_in_scene :: "string \<Rightarrow> Scene \<Rightarrow> nat" where
  "occurrences_in_scene p sc =
     (case stext sc of Blocks blocks \<Rightarrow> sum_list (map (occurrences_in_block p) blocks) | _ \<Rightarrow> 0)"

definition occurrences_in_record :: "string \<Rightarrow> BackupData \<Rightarrow> nat" where
  "occurrences_in_record p d =
     (case revisions d of
        [] \<Rightarrow> 0
      | rev0 # _ \<Rightarrow> sum_list (map (occurrences_in_scene p) (scenes rev0)))"

text \<open>No entry of a \<open>scenes\<close> array or of a \<open>blocks\<close> array of the record is null.\<close>

definition no_null_entries :: "BackupData \<Rightarrow> bool" where
  "no_null_entries d =
     (\<forall>r \<in> set (revisions d). \<forall>sc \<in> set (scenes r).
        stext sc \<noteq> NullScene \<and> NullBlock \<notin> set (blocks_of (stext sc)))"

text \<open>The pieces of a text between the occurrences of a non-empty pattern.\<close>

fun split_at_occ :: "string \<Rightarrow> string \<Rightarrow> string list" where
  "split_at_occ p [] = [[]]"
| "split_at_occ p (c # cs) =
     (if prefix p (c # cs) then [] # split_at_occ p (drop (length p - 1) cs)
      else (let r = split_at_occ p cs in (c # hd r) # tl r))"

text \<open>The pieces of a text outside a list of matches, from position \<open>pos\<close> on.\<close>

fun pieces :: "string \<Rightarrow> (nat \<times> nat) list \<Rightarrow> nat \<Rightarrow> string list" where
  "pieces s [] pos = [drop pos s]"
| "pieces s ((mi, ml) # ms) pos =
     (if pos \<le> mi then take (mi - pos) (drop pos s) # pieces s ms (mi + ml)
      else pieces s ms pos)"

text \<open>Pieces joined by a separator that is copied as it is.\<close>

fun join_with :: "string \<Rightarrow> string list \<Rightarrow> string" where
  "join_with sep [] = []"
| "join_with sep [x] = x"
| "join_with sep (x # xs) = x @ sep @ join_with sep xs"

text \<open>Index \<open>i\<close> holds the first chapter of the list with its (non-empty) path.\<close>

definition first_occurrence :: "Chapter list \<Rightarrow> nat \<Rightarrow> bool" where
  "first_occurrence chs i =
     (href (chs ! i) \<noteq> [] \<and> (\<forall>j < i. href (chs ! j) \<noteq> href (chs ! i)))"

text \<open>
  Calling find-next, or find-previous, again and again until it reports no match: the
  (scene, block, offset) of the matches in the order they are found. \<open>None\<close> when the
  given number of calls is not enough.
\<close>

fun findNext_all ::
  "regex_engine \<Rightarrow> string \<Rightarrow> bool \<Rightarrow> nat \<Rightarrow> fr_state \<Rightarrow> (nat \<times> nat \<times> nat) list option" where
  "findNext_all RegExp p r 0 s = None"
| "findNext_all RegExp p r (Suc fuel) s =
     (let s' = handleFindNextMatch RegExp p r s
      in case frMatch s' of
           None \<Rightarrow> Some []
         | Some m \<Rightarrow>
             map_option ((#) (sceneIndex m, blockIndex m, matchIndex m))
               (findNext_all RegExp p r fuel s'))"

fun findPrevious_all ::
  "regex_engine \<Rightarrow> string \<Rightarrow> bool \<Rightarrow> nat \<Rightarrow> fr_state \<Rightarrow> (nat \<times> nat \<times> nat) list option" where
  "findPrevious_all RegExp p r 0 s = None"
| "findPrevious_all RegExp p r (Suc fuel) s =
     (case handleFindPreviousMatch RegExp p r s of
        None \<Rightarrow> None
      | Some s' \<Rightarrow>
          (case frMatch s' of
             None \<Rightarrow> Some []
           | Some m \<Rightarrow>
               map_option ((#) (sceneIndex m, blockIndex m, matchIndex m))
                 (findPrevious_all RegExp p r fuel s')))"

text \<open>A pointer that is not set: backward search starts from the end of the document.\<close>

definition unset_pointer :: FindReplacePointer where
  "unset_pointer = \<lparr>scene = NaN, block = NaN, offset = NaN\<rparr>"

text \<open>
  Where the forward scan looks. \<open>search_start\<close> is the offset at which block \<open>j\<close> of scene
  \<open>i\<close> is searched, and a block is \<open>searched\<close> when it is a text block that the scan
  does not pass over for being at or beyond its end. \<open>first_block\<close> is the block the
  scan of scene \<open>i\<close> starts at. \<open>reaches_from scs tempPtr i0\<close>: scanning the scenes from
  \<open>i0\<close> on, there is a block that is searched. \<open>scan_start\<close> is the pointer the scan
  starts from, and \<open>reaches_block d p\<close> says that find-next from the pointer \<open>p\<close> comes
  to a block of the record that it searches.
\<close>

definition search_start :: "FindReplacePointer \<Rightarrow> int \<Rightarrow> int \<Rightarrow> nat" where
  "search_start tempPtr i j =
     (if at_block tempPtr i j
      then (case offset tempPtr of NaN \<Rightarrow> 0 | Num n \<Rightarrow> if n < 0 then 0 else nat n)
      else 0)"

definition searched :: "FindReplacePointer \<Rightarrow> int \<Rightarrow> int \<Rightarrow> Block \<Rightarrow> bool" where
  "searched tempPtr i j b =
     (case b of
        TextBlock t \<Rightarrow> \<not> (length t \<le> search_start tempPtr i j \<and> 0 < length t)
      | _ \<Rightarrow> False)"

definition first_block :: "FindReplacePointer \<Rightarrow> int \<Rightarrow> jsnum" where
  "first_block tempPtr i = (if scene tempPtr = Num i then block tempPtr else Num 0)"

definition reaches_from :: "Scene list \<Rightarrow> FindReplacePointer \<Rightarrow> int \<Rightarrow> bool" where
  "reaches_from scs tempPtr i0 =
     (\<exists>i j. i0 \<le> i \<and> i < int (length scs) \<and> js_le (first_block tempPtr i) (Num j)
            \<and> j < int (length (blocks_of (stext (scene_at scs i))))
            \<and> searched tempPtr i j (block_at (blocks_of (stext (scene_at scs i))) j))"

definition scan_start :: "FindReplacePointer \<Rightarrow> FindReplacePointer" where
  "scan_start p = (case scene p of NaN \<Rightarrow> origin | Num n \<Rightarrow> if n < 0 then origin else p)"

definition reaches_block :: "BackupData \<Rightarrow> FindReplacePointer \<Rightarrow> bool" where
  "reaches_block d p =
     (case revisions d of
        [] \<Rightarrow> False
      | rev0 # _ \<Rightarrow>
          (case scene (scan_start p) of
             NaN \<Rightarrow> False
           | Num n \<Rightarrow> reaches_from (scenes rev0) (scan_start p) n))"

section \<open>Sample inputs\<close>

text \<open>
  A small engine to run the model on: it reads a pattern as literal text, and rejects the
  pattern \<open>[\<close> as the real engine does.
\<close>

definition literal_engine :: regex_engine where
  "literal_engine p =
     (if p = ''['' then None
      else Some (\<lambda>s k. if prefix p (drop k s) then Some (length p) else None))"

definition one_block_record :: "string \<Rightarrow> BackupData" where
  "one_block_record t =
     \<lparr>last_update_date = 0, last_backup_date = 0,
      revisions = [\<lparr>date = 0, scenes = [\<lparr>title = Some ''One'', stext = Blocks [TextBlock t]\<rparr>]\<rparr>]\<rparr>"

definition loaded :: "BackupData \<Rightarrow> fr_state" where
  "loaded d = handleFrBackupFileChange d initial_state"

text \<open>A record whose only scene has a null entry between two text blocks.\<close>

definition null_block_record :: BackupData where
  "null_block_record =
     \<lparr>last_update_date = 0, last_backup_date = 0,
      revisions =
        [\<lparr>date = 0,
          scenes = [\<lparr>title = Some ''One'',
                     stext = Blocks [TextBlock ''cat cat'', NullBlock, TextBlock ''cat'']\<rparr>]\<rparr>]\<rparr>"

text \<open>A record whose second scene is a null entry.\<close>

definition null_scene_record :: BackupData where
  "null_scene_record =
     \<lparr>last_update_date = 0, last_backup_date = 0,
      revisions =
        [\<lparr>date = 0,
          scenes = [\<lparr>title = Some ''One'', stext = Blocks [TextBlock ''cat'']\<rparr>,
                    \<lparr>title = None, stext = NullScene\<rparr>]\<rparr>]\<rparr>"

text \<open>
  A platform to run the model on.

  \<open>plain_URL_pathname\<close> follows the path state of the URL standard for a \<open>file:\<close> URL on
  references made of path segments that need no escape (no \<open>%\<close>, \<open>?\<close>, \<open>#\<close>, \<open>:\<close>, backslash
  or white space) and do not start with \<open>//\<close>: the path of the base is the text after
  \<open>file:///\<close>; a reference that starts with \<open>/\<close> replaces it, any other reference is
  parsed after the path of the base without its last segment; a segment \<open>..\<close> removes the
  last segment, a segment \<open>.\<close> adds nothing, either leaves an empty last segment when it
  ends the reference, and every other segment is kept, also an empty one. On such paths
  \<open>decodeURIComponent\<close> has nothing to decode.
\<close>

fun dot_segments :: "string list \<Rightarrow> string list \<Rightarrow> string list" where
  "dot_segments [] path = path"
| "dot_segments (seg # segs) path =
     (if seg = ''..'' then dot_segments segs (if segs = [] then butlast path @ [[]] else butlast path)
      else if seg = ''.'' then dot_segments segs (if segs = [] then path @ [[]] else path)
      else dot_segments segs (path @ [seg]))"

definition plain_URL_pathname :: "string \<Rightarrow> string \<Rightarrow> string option" where
  "plain_URL_pathname rel base =
     (let basePath = dot_segments (split_on (CHR ''/'') (drop 8 base)) [];
          path = (if rel \<noteq> [] \<and> hd rel = CHR ''/''
                  then dot_segments (split_on (CHR ''/'') (tl rel)) []
                  else dot_segments (split_on (CHR ''/'') rel) (butlast basePath))
      in Some (concat (map ((#) (CHR ''/'')) path)))"

text \<open>
  The UTF-8 decoder of the Encoding standard. \<open>needed\<close> is the number of continuation
  bytes still to come for the code point \<open>cp\<close>, each between \<open>lower\<close> and \<open>upper\<close>. A
  byte that cannot start or continue a sequence is an error: with \<open>fatal\<close> the decoder
  throws, without it the decoder emits U+FFFD and goes on, reading again the byte that
  broke a sequence. A code point above U+FFFF is a surrogate pair in a JavaScript string,
  and a byte order mark at the start is dropped.
\<close>

definition utf8_lead :: "nat \<Rightarrow> (nat \<times> nat \<times> nat \<times> nat) option" where
  "utf8_lead b =
     (if 0xC2 \<le> b \<and> b \<le> 0xDF then Some (b mod 32, 1, 0x80, 0xBF)
      else if 0xE0 \<le> b \<and> b \<le> 0xEF then
        Some (b mod 16, 2, if b = 0xE0 then 0xA0 else 0x80, if b = 0xED then 0x9F else 0xBF)
      else if 0xF0 \<le> b \<and> b \<le> 0xF4 then
        Some (b mod 8, 3, if b = 0xF0 then 0x90 else 0x80, if b = 0xF4 then 0x8F else 0xBF)
      else None)"

definition code_units :: "nat \<Rightarrow> utf16" where
  "code_units cp =
     (if cp \<le> 0xFFFF then [cp]
      else [0xD800 + (cp - 0x10000) div 1024, 0xDC00 + (cp - 0x10000) mod 1024])"

function utf8_decoder :: "bool \<Rightarrow> nat \<Rightarrow> nat \<Rightarrow> nat \<Rightarrow> nat \<Rightarrow> nat list \<Rightarrow> utf16 option" where
  "utf8_decoder fatal cp needed lower upper [] =
     (if needed = 0 then Some [] else if fatal then None else Some [0xFFFD])"
| "utf8_decoder fatal cp needed lower upper (b # bs) =
     (if needed = 0 then
        (if b \<le> 0x7F then map_option ((#) b) (utf8_decoder fatal 0 0 0x80 0xBF bs)
         else case utf8_lead b of
           Some (cp', needed', lower', upper') \<Rightarrow> utf8_decoder fatal cp' needed' lower' upper' bs
         | None \<Rightarrow>
             if fatal then None
             else map_option ((#) 0xFFFD) (utf8_decoder fatal 0 0 0x80 0xBF bs))
      else if b < lower \<or> upper < b then
        (if fatal then None
         else map_option ((#) 0xFFFD) (utf8_decoder fatal 0 0 0x80 0xBF (b # bs)))
      else if needed = 1 then
        map_option ((@) (code_units (cp * 64 + b mod 64))) (utf8_decoder fatal 0 0 0x80 0xBF bs)
      else utf8_decoder fatal (cp * 64 + b mod 64) (needed - 1) 0x80 0xBF bs)"
  by pat_completeness auto
termination
  by (relation "measure (\<lambda>(fatal, cp, needed, lower, upper, bs).
                  2 * length bs + (if needed = 0 then 0 else 1))") auto

definition utf8_decode :: "bool \<Rightarrow> bytes \<Rightarrow> utf16 option" where
  "utf8_decode fatal bs =
     (let stream = map of_char bs
      in utf8_decoder fatal 0 0 0x80 0xBF
           (if take 3 stream = [0xEF, 0xBB, 0xBF] then drop 3 stream else stream))"

text \<open>
  The label \<open>latin1\<close> names the single-byte decoder windows-1252 of the Encoding
  standard: a byte is the code point of the same number, but for the bytes from \<open>0x80\<close>
  to \<open>0x9F\<close>, which the index of the encoding gives.
\<close>

definition windows_1252_index :: "nat list" where
  "windows_1252_index =
     [0x20AC, 0x0081, 0x201A, 0x0192, 0x201E, 0x2026, 0x2020, 0x2021,
      0x02C6, 0x2030, 0x0160, 0x2039, 0x0152, 0x008D, 0x017D, 0x008F,
      0x0090, 0x2018, 0x2019, 0x201C, 0x201D, 0x2022, 0x2013, 0x2014,
      0x02DC, 0x2122, 0x0161, 0x203A, 0x0153, 0x009D, 0x017E, 0x0178]"

definition windows_1252_decode :: "bytes \<Rightarrow> utf16" where
  "windows_1252_decode bs =
     map (\<lambda>c. let b = of_char c
               in if 0x80 \<le> b \<and> b \<le> 0x9F then windows_1252_index ! (b - 0x80) else b) bs"

text \<open>
  The text extractor of the platform trims its argument: this is what the extractor of
  the source does to text with no markup and no character reference, and with no white
  space but at its ends.
\<close>

definition sample_platform :: platform where
  "sample_platform =
     \<lparr>URL_pathname = plain_URL_pathname,
      decodeURIComponent = Some,
      TextDecoder_utf8 = utf8_decode,
      TextDecoder_latin1 = windows_1252_decode,
      extractTextFromHtml = trim\<rparr>"

text \<open>The session after find-next has found \<open>b\<close> in a record whose only block is \<open>abc\<close>.\<close>

definition sample_found :: fr_state where
  "sample_found =
     \<lparr>frData = Some (one_block_record ''abc''),
      frPtr = \<lparr>scene = Num 0, block = Num 0, offset = Num 2\<rparr>,
      frMatch = Some \<lparr>sceneIndex = 0, blockIndex = 0, matchIndex = 1, matchLength = 1,
                      chapterTitle = ''One'', matchLine = ''abc''\<rparr>,
      currentMatchDisplay = MatchFoundIn ''One'' ''abc'',
      toasts = [LoadedToast]\<rparr>"

text \<open>A table of contents whose third entry repeats the path of the first.\<close>

definition sample_toc :: "Chapter list" where
  "sample_toc =
     [\<lparr>chapter_title = ''One'', href = ''OEBPS/c1.xhtml''\<rparr>,
      \<lparr>chapter_title = ''Two'', href = ''OEBPS/c2.xhtml''\<rparr>,
      \<lparr>chapter_title = ''One again'', href = ''OEBPS/c1.xhtml''\<rparr>]"

subsection \<open>Notions and sample inputs for the EPUB tool\<close>

text \<open>The table-of-contents entries of an archive entry, read as XML or as HTML.\<close>

definition toc_entries_in :: "zip_entry \<Rightarrow> toc_entry set" where
  "toc_entries_in f =
     (case as_xml f of Some d \<Rightarrow> set (navPoints d) | None \<Rightarrow> {})
     \<union> (case as_html f of Some d \<Rightarrow> set (tocLinks d) | None \<Rightarrow> {})"

text \<open>
  The text of a chapter after decoding, extraction and line removal, when its file is in
  the archive; and the file that position \<open>i\<close> of the chapter list contributes to the output,
  if any.
\<close>

definition chapter_text :: "platform \<Rightarrow> archive \<Rightarrow> bool \<Rightarrow> int \<Rightarrow> Chapter \<Rightarrow> utf16 option" where
  "chapter_text P epubZip enableRemoveLines linesToRemove entry =
     map_option
       (\<lambda>chapterFile. remove_lines enableRemoveLines linesToRemove
                         (extractTextFromHtml P (decode_chapter P (bytes chapterFile))))
       (epubZip (href entry))"

definition file_at ::
  "platform \<Rightarrow> archive \<Rightarrow> bool \<Rightarrow> int \<Rightarrow> Chapter list \<Rightarrow> nat \<Rightarrow> (string \<times> utf16) list" where
  "file_at P epubZip enableRemoveLines linesToRemove chapters i =
     (case chapter_text P epubZip enableRemoveLines linesToRemove (chapters ! i) of
        Some t \<Rightarrow> if trim t \<noteq> [] then [(txtFilename i, t)] else []
      | None \<Rightarrow> [])"

text \<open>
  Two small archives. In the first the table of contents lies in a directory below the
  package document. In the second the first chapter is blank and the second starts with a
  byte that is not valid UTF-8.
\<close>

definition no_xml :: xml_doc where
  "no_xml = \<lparr>rootfile = None, navItem = None, spineToc = None, itemHref = (\<lambda>i. None),
             navPoints = []\<rparr>"

definition xml_file :: "xml_doc \<Rightarrow> zip_entry" where
  "xml_file d = \<lparr>bytes = [], as_xml = Some d, as_html = None\<rparr>"

definition text_file :: "bytes \<Rightarrow> zip_entry" where
  "text_file bs = \<lparr>bytes = bs, as_xml = None, as_html = Some \<lparr>tocLinks = []\<rparr>\<rparr>"

definition nested_toc_epub :: archive where
  "nested_toc_epub path =
     (if path = ''META-INF/container.xml''
        then Some (xml_file (no_xml\<lparr>rootfile := Some ''OEBPS/content.opf''\<rparr>))
      else if path = ''OEBPS/content.opf''
        then Some (xml_file (no_xml\<lparr>spineToc := Some (Some ''ncx''),
                      itemHref := (\<lambda>i. if i = ''ncx'' then Some ''nav/toc.ncx'' else None)\<rparr>))
      else if path = ''OEBPS/nav/toc.ncx''
        then Some (xml_file (no_xml\<lparr>navPoints := [\<lparr>label = Some ''One'', src = Some ''c1.xhtml''\<rparr>]\<rparr>))
      else if path = ''OEBPS/nav/c1.xhtml'' then Some (text_file ''Hi'')
      else None)"

definition flat_epub :: archive where
  "flat_epub path =
     (if path = ''META-INF/container.xml''
        then Some (xml_file (no_xml\<lparr>rootfile := Some ''OEBPS/content.opf''\<rparr>))
      else if path = ''OEBPS/content.opf''
        then Some (xml_file (no_xml\<lparr>navItem := Some (Some ''nav.xhtml'')\<rparr>))
      else if path = ''OEBPS/nav.xhtml''
        then Some \<lparr>bytes = [], as_xml = None,
                   as_html = Some \<lparr>tocLinks = [\<lparr>label = Some ''One'', src = Some ''c1.xhtml''\<rparr>,
                                              \<lparr>label = Some ''Two'', src = Some ''c2.xhtml#top''\<rparr>]\<rparr>\<rparr>
      else if path = ''OEBPS/c1.xhtml'' then Some (text_file ''  '')
      else if path = ''OEBPS/c2.xhtml'' then Some (text_file [CHR 0xFF, CHR ''H'', CHR ''i''])
      else None)"

section \<open>Properties\<close>

subsection \<open>Find-next does not wrap around\<close>

text \<open>
  Claim C10. When the scene index of the pointer is at or beyond the number of scenes of
  the first revision, \<open>findNextMatchInternal\<close> returns no match whatever the scenes and
  the pattern are: no block is searched, so even a pattern the engine rejects gives no
  error. When the scene index is negative or not a number, the search is the search from
  the origin \<open>(0, 0, 0)\<close>.
\<close>

theorem findNext_never_wraps:
  "(\<forall>rev0 revs n. revisions d = rev0 # revs \<and> scene p = Num n \<and> int (length (scenes rev0)) \<le> n
      \<longrightarrow> findNextMatchInternal RegExp pat useRegex d p = Miss)
   \<and> ((scene p = NaN \<or> (\<exists>n < 0. scene p = Num n))
      \<longrightarrow> findNextMatchInternal RegExp pat useRegex d p
            = findNextMatchInternal RegExp pat useRegex d origin)"
  by (auto simp: findNextMatchInternal_def origin_def split: list.splits jsnum.splits)

theorem findNext_never_wraps_witness:
  "findNextMatchInternal literal_engine ''aa'' False (one_block_record ''aaa'')
     \<lparr>scene = Num 1, block = Num 0, offset = Num 0\<rparr> = Miss
   \<and> findNextMatchInternal literal_engine ''aa'' False (one_block_record ''aaa'')
       \<lparr>scene = Num (- 1), block = Num 0, offset = Num 0\<rparr>
     = findNextMatchInternal literal_engine ''aa'' False (one_block_record ''aaa'') origin"
  using findNext_never_wraps
          [of "one_block_record ''aaa''" "\<lparr>scene = Num 1, block = Num 0, offset = Num 0\<rparr>"
              literal_engine "''aa''" False]
        findNext_never_wraps
          [of "one_block_record ''aaa''" "\<lparr>scene = Num (- 1), block = Num 0, offset = Num 0\<rparr>"
              literal_engine "''aa''" False]
  by (simp add: one_block_record_def)

subsection \<open>Replacing one match\<close>

lemma block_text_atD:
  assumes "block_text_at d si bi = Some t"
  obtains rev0 revs blocks where "revisions d = rev0 # revs" "si < length (scenes rev0)"
    "stext (scenes rev0 ! si) = Blocks blocks" "bi < length blocks" "blocks ! bi = TextBlock t"
  using assms
  by (auto simp: block_text_at_def split: list.splits if_splits SceneText.splits Block.splits)

lemma replace_in_data_text:
  assumes "block_text_at d (sceneIndex m) (blockIndex m) = Some t"
  shows "\<exists>d'. replace_in_data d m R = Some d'
           \<and> block_text_at d' (sceneIndex m) (blockIndex m)
               = Some (take (matchIndex m) t @ R @ drop (matchIndex m + matchLength m) t)"
proof -
  from assms obtain rev0 revs blocks where
    r: "revisions d = rev0 # revs" and si: "sceneIndex m < length (scenes rev0)"
    and st: "stext (scenes rev0 ! sceneIndex m) = Blocks blocks"
    and bi: "blockIndex m < length blocks" and b: "blocks ! blockIndex m = TextBlock t"
    by (rule block_text_atD)
  let ?t' = "take (matchIndex m) t @ R @ drop (matchIndex m + matchLength m) t"
  let ?d' = "d\<lparr>revisions :=
                 rev0\<lparr>scenes := (scenes rev0)
                        [sceneIndex m := (scenes rev0 ! sceneIndex m)
                           \<lparr>stext := Blocks (blocks[blockIndex m := TextBlock ?t'])\<rparr>]\<rparr> # revs\<rparr>"
  have "replace_in_block (TextBlock t) (matchIndex m) (matchLength m) R = Some (TextBlock ?t')"
    by (simp add: replace_in_block_def substring_def substring_from_def)
  with r si st bi b have "replace_in_data d m R = Some ?d'"
    by (simp add: replace_in_data_def)
  moreover from si bi have "block_text_at ?d' (sceneIndex m) (blockIndex m) = Some ?t'"
    by (simp add: block_text_at_def)
  ultimately show ?thesis by blast
qed

lemma sample_found_reached:
  "handleFindNextMatch literal_engine ''b'' False (loaded (one_block_record ''abc'')) = sample_found"
  by code_simp

text \<open>
  Claim C4. When the last match \<open>m\<close> points at a text block with text \<open>t\<close>,
  \<open>handleReplaceMatch\<close> with replacement \<open>R\<close> leaves in that block the text
  \<open>t[0:i] + R + t[i+len:]\<close>, where \<open>i\<close> is the match index and \<open>len\<close> the match length,
  puts the pointer at offset \<open>i + length R\<close> in the same scene and block, and clears the
  last match.
\<close>

theorem replaceOne_splices:
  assumes "frData s = Some d" and "frMatch s = Some m"
    and "block_text_at d (sceneIndex m) (blockIndex m) = Some t"
  shows "\<exists>d'. frData (handleReplaceMatch R s) = Some d'
           \<and> block_text_at d' (sceneIndex m) (blockIndex m)
               = Some (take (matchIndex m) t @ R @ drop (matchIndex m + matchLength m) t)
           \<and> frPtr (handleReplaceMatch R s)
               = \<lparr>scene = Num (int (sceneIndex m)), block = Num (int (blockIndex m)),
                  offset = Num (int (matchIndex m) + int (length R))\<rparr>
           \<and> frMatch (handleReplaceMatch R s) = None"
proof -
  from replace_in_data_text [OF assms(3), of R] obtain d' where
    "replace_in_data d m R = Some d'"
    and "block_text_at d' (sceneIndex m) (blockIndex m)
           = Some (take (matchIndex m) t @ R @ drop (matchIndex m + matchLength m) t)"
    by blast
  with assms(1,2) show ?thesis
    by (simp add: handleReplaceMatch_def showToast_def)
qed

theorem replaceOne_splices_witness:
  "frData sample_found = Some (one_block_record ''abc'')
   \<and> block_text_at (one_block_record ''abc'') 0 0 = Some ''abc''
   \<and> (\<exists>d'. frData (handleReplaceMatch ''xyz'' sample_found) = Some d'
          \<and> block_text_at d' 0 0 = Some ''axyzc''
          \<and> frPtr (handleReplaceMatch ''xyz'' sample_found)
              = \<lparr>scene = Num 0, block = Num 0, offset = Num 4\<rparr>
          \<and> frMatch (handleReplaceMatch ''xyz'' sample_found) = None)"
proof -
  have d: "frData sample_found = Some (one_block_record ''abc'')"
    by (simp add: sample_found_def)
  have m: "frMatch sample_found
             = Some \<lparr>sceneIndex = 0, blockIndex = 0, matchIndex = 1, matchLength = 1,
                     chapterTitle = ''One'', matchLine = ''abc''\<rparr>"
    by (simp add: sample_found_def)
  have t: "block_text_at (one_block_record ''abc'') 0 0 = Some ''abc''"
    by (simp add: block_text_at_def one_block_record_def)
  from replaceOne_splices [OF d m, of "''abc''" "''xyz''"] t d show ?thesis
    by simp
qed

subsection \<open>Deduplication of the chapter list\<close>

lemma dedup_loop_acc:
  "dedup_loop chs acc seen = acc @ dedup_loop chs [] seen"
proof (induction chs arbitrary: acc seen)
  case Nil
  show ?case by simp
next
  case (Cons c chs)
  show ?case
    using Cons.IH [of "acc @ [c]" "insert (href c) seen"] Cons.IH [of "[c]" "insert (href c) seen"]
      Cons.IH [of acc seen]
    by simp
qed

lemma dedup_loop_index:
  "dedup_loop chs [] seen =
     map ((!) chs)
       (filter (\<lambda>i. href (chs ! i) \<noteq> [] \<and> href (chs ! i) \<notin> seen
                     \<and> (\<forall>j < i. href (chs ! j) \<noteq> href (chs ! i)))
          [0..<length chs])"
proof (induction chs arbitrary: seen)
  case Nil
  show ?case by simp
next
  case (Cons c chs)
  have upt: "[0..<length (c # chs)] = 0 # map Suc [0..<length chs]"
    by (simp add: upt_conv_Cons map_Suc_upt del: upt_Suc)
  show ?case
  proof (cases "href c \<noteq> [] \<and> href c \<notin> seen")
    case True
    have "dedup_loop (c # chs) [] seen = c # dedup_loop chs [] (insert (href c) seen)"
      using True dedup_loop_acc [of chs "[c]" "insert (href c) seen"] by simp
    also have "dedup_loop chs [] (insert (href c) seen)
        = map ((!) (c # chs))
            (filter (\<lambda>i. href ((c # chs) ! i) \<noteq> [] \<and> href ((c # chs) ! i) \<notin> seen
                          \<and> (\<forall>j < i. href ((c # chs) ! j) \<noteq> href ((c # chs) ! i)))
               (map Suc [0..<length chs]))"
      unfolding Cons.IH [of "insert (href c) seen"]
      apply (simp add: filter_map comp_def All_less_Suc2)
      apply (rule arg_cong [where f = "map ((!) chs)"])
      apply (rule filter_cong)
       apply auto
      done
    finally show ?thesis
      using True unfolding upt by simp
  next
    case False
    have "dedup_loop (c # chs) [] seen = dedup_loop chs [] seen"
      using False by auto
    also have "\<dots>
        = map ((!) (c # chs))
            (filter (\<lambda>i. href ((c # chs) ! i) \<noteq> [] \<and> href ((c # chs) ! i) \<notin> seen
                          \<and> (\<forall>j < i. href ((c # chs) ! j) \<noteq> href ((c # chs) ! i)))
               (map Suc [0..<length chs]))"
      unfolding Cons.IH [of seen] using False
      apply (simp add: filter_map comp_def All_less_Suc2)
      apply (rule arg_cong [where f = "map ((!) chs)"])
      apply (rule filter_cong)
       apply auto
      done
    finally show ?thesis
      using False unfolding upt by auto
  qed
qed

lemma dedup_loop_subseq: "subseq (dedup_loop chs [] seen) chs"
proof (induction chs arbitrary: seen)
  case Nil
  show ?case by simp
next
  case (Cons c chs)
  show ?case
    using Cons.IH [of seen] Cons.IH [of "insert (href c) seen"]
      dedup_loop_acc [of chs "[c]" "insert (href c) seen"]
    by auto
qed

lemma dedup_loop_hrefs:
  "set (map href (dedup_loop chs [] seen)) = (href ` set chs - {[]}) - seen"
proof (induction chs arbitrary: seen)
  case Nil
  show ?case by simp
next
  case (Cons c chs)
  show ?case
    using Cons.IH [of seen] Cons.IH [of "insert (href c) seen"]
      dedup_loop_acc [of chs "[c]" "insert (href c) seen"]
    by auto
qed

lemma dedup_loop_distinct: "distinct (map href (dedup_loop chs [] seen))"
proof (induction chs arbitrary: seen)
  case Nil
  show ?case by simp
next
  case (Cons c chs)
  show ?case
    using Cons.IH [of seen] Cons.IH [of "insert (href c) seen"]
      dedup_loop_acc [of chs "[c]" "insert (href c) seen"]
      dedup_loop_hrefs [of chs "insert (href c) seen"]
    by auto
qed

lemma distinct_one_with:
  "distinct (map f xs) \<Longrightarrow> h \<in> f ` set xs \<Longrightarrow> length (filter (\<lambda>x. f x = h) xs) = 1"
proof (induction xs)
  case Nil
  then show ?case by simp
next
  case (Cons x xs)
  show ?case
  proof (cases "f x = h")
    case True
    with Cons.prems have "filter (\<lambda>y. f y = h) xs = []"
      by (auto simp: filter_empty_conv image_iff)
    with True show ?thesis by simp
  next
    case False
    with Cons show ?thesis by auto
  qed
qed

text \<open>
  Claim C8. The list that \<open>deduplicateChapters\<close> returns has no two entries with the same
  path, keeps the order of the table of contents, and consists of exactly the entries that
  are the first of the list with their (non-empty) path; so every non-empty path that
  occurs in the table of contents, however often, has exactly one entry in the result, the
  first one. An entry whose path is empty is not a chapter reference and is dropped.
\<close>

theorem deduplicateChapters_first_wins:
  "distinct (map href (deduplicateChapters chs))
   \<and> subseq (deduplicateChapters chs) chs
   \<and> deduplicateChapters chs = map ((!) chs) (filter (first_occurrence chs) [0..<length chs])
   \<and> (\<forall>h. h \<noteq> [] \<and> h \<in> href ` set chs
          \<longrightarrow> length (filter (\<lambda>c. href c = h) (deduplicateChapters chs)) = 1)"
proof (intro conjI allI impI)
  show d: "distinct (map href (deduplicateChapters chs))"
    by (simp add: deduplicateChapters_def dedup_loop_distinct)
  show "subseq (deduplicateChapters chs) chs"
    by (simp add: deduplicateChapters_def dedup_loop_subseq)
  show "deduplicateChapters chs = map ((!) chs) (filter (first_occurrence chs) [0..<length chs])"
    by (simp add: deduplicateChapters_def dedup_loop_index first_occurrence_def [abs_def])
  fix h
  assume "h \<noteq> [] \<and> h \<in> href ` set chs"
  then have "h \<in> href ` set (deduplicateChapters chs)"
    using dedup_loop_hrefs [of chs "{}"] by (auto simp: deduplicateChapters_def)
  with d show "length (filter (\<lambda>c. href c = h) (deduplicateChapters chs)) = 1"
    by (rule distinct_one_with)
qed

theorem deduplicateChapters_first_wins_witness:
  "''OEBPS/c1.xhtml'' \<noteq> [] \<and> ''OEBPS/c1.xhtml'' \<in> href ` set sample_toc
   \<and> length (filter (\<lambda>c. href c = ''OEBPS/c1.xhtml'') (deduplicateChapters sample_toc)) = 1
   \<and> distinct (map href (deduplicateChapters sample_toc))
   \<and> deduplicateChapters sample_toc = [sample_toc ! 0, sample_toc ! 1]"
proof -
  have h: "''OEBPS/c1.xhtml'' \<noteq> [] \<and> ''OEBPS/c1.xhtml'' \<in> href ` set sample_toc"
    by (simp add: sample_toc_def)
  have e: "deduplicateChapters sample_toc = [sample_toc ! 0, sample_toc ! 1]"
    by (simp add: sample_toc_def deduplicateChapters_def)
  from deduplicateChapters_first_wins [of sample_toc] h e show ?thesis
    by blast
qed

subsection \<open>Replacing all matches\<close>

lemma split_at_occ_not_Nil [simp]: "split_at_occ p s \<noteq> []"
  by (induction p s rule: split_at_occ.induct) (auto simp: Let_def)

lemma pieces_not_Nil [simp]: "pieces s ms pos \<noteq> []"
  by (induction s ms pos rule: pieces.induct) auto

lemma join_with_Cons: "xs \<noteq> [] \<Longrightarrow> join_with sep (x # xs) = x @ sep @ join_with sep xs"
  by (cases xs) auto

lemma first_occ_None_split:
  "p \<noteq> [] \<Longrightarrow> first_occ p s = None \<Longrightarrow> split_at_occ p s = [s]"
  by (induction s) (auto simp: Let_def split: if_splits)

lemma first_occ_Some_split:
  "p \<noteq> [] \<Longrightarrow> first_occ p s = Some k \<Longrightarrow>
     split_at_occ p s = take k s # split_at_occ p (drop (k + length p) s)"
proof (induction s arbitrary: k)
  case Nil
  then show ?case by simp
next
  case (Cons c cs)
  show ?case
  proof (cases "prefix p (c # cs)")
    case True
    with Cons.prems have "k = 0" by simp
    moreover from Cons.prems(1) have "drop (length p) (c # cs) = drop (length p - 1) cs"
      by (cases p) auto
    ultimately show ?thesis using True by simp
  next
    case False
    with Cons.prems obtain k' where k': "first_occ p cs = Some k'" "k = Suc k'"
      by auto
    from Cons.IH [OF Cons.prems(1) k'(1)] False k'(2) show ?thesis
      by (simp add: Let_def)
  qed
qed

lemma first_occ_bound: "first_occ p s = Some k \<Longrightarrow> k + length p \<le> length s"
proof (induction s arbitrary: k)
  case Nil
  then show ?case by (simp split: if_splits)
next
  case (Cons c cs)
  show ?case
  proof (cases "prefix p (c # cs)")
    case True
    with Cons.prems show ?thesis by (auto dest: prefix_length_le)
  next
    case False
    with Cons.prems Cons.IH show ?thesis by auto
  qed
qed

lemma count_occ_split: "count_occ p s = length (split_at_occ p s) - 1"
proof (induction p s rule: count_occ.induct)
  case (1 p)
  show ?case by simp
next
  case (2 p c cs)
  show ?case
  proof (cases "prefix p (c # cs)")
    case True
    have "length (split_at_occ p (drop (length p - 1) cs)) \<noteq> 0" by simp
    with True "2.IH"(1) show ?thesis by simp
  next
    case False
    with "2.IH"(2) show ?thesis by (simp add: Let_def)
  qed
qed

lemma replace_literal_loop_result:
  assumes "p \<noteq> []"
  shows "L \<le> length t \<Longrightarrow>
     replace_literal_loop t p R L acc n
       = Some (acc @ join_with R (split_at_occ p (drop L t)),
               n + (length (split_at_occ p (drop L t)) - 1))"
proof (induction "length t - L" arbitrary: L acc n rule: less_induct)
  case less
  have idx: "indexOf t p L = map_option (\<lambda>i. L + i) (first_occ p (drop L t))"
    using less.prems by (simp add: indexOf_def min_def)
  show ?case
  proof (cases "first_occ p (drop L t)")
    case None
    with idx assms show ?thesis
      by (subst replace_literal_loop.simps) (simp add: first_occ_None_split substring_from_def)
  next
    case (Some k)
    let ?L' = "L + k + length p"
    from first_occ_bound [OF Some] have b: "?L' \<le> length t" using less.prems by simp
    from assms have lp: "0 < length p" by simp
    from b lp have dec: "length t - ?L' < length t - L" by arith
    have sp: "split_at_occ p (drop L t)
                = take k (drop L t) # split_at_occ p (drop ?L' t)"
      using first_occ_Some_split [OF assms Some] by (simp add: add.commute add.left_commute)
    have "replace_literal_loop t p R L acc n
            = replace_literal_loop t p R ?L' (acc @ substring t L (L + k) @ R) (n + 1)"
      using idx Some by (subst replace_literal_loop.simps) simp
    also have "\<dots> = Some ((acc @ substring t L (L + k) @ R) @ join_with R (split_at_occ p (drop ?L' t)),
                          (n + 1) + (length (split_at_occ p (drop ?L' t)) - 1))"
      by (rule less.hyps [OF dec b])
    also have "substring t L (L + k) = take k (drop L t)"
      by (simp add: substring_def Let_def)
    finally show ?thesis
      unfolding sp by (simp add: join_with_Cons)
  qed
qed


lemma split_at_occ_no_occurrence: "count_occ p t = 0 \<Longrightarrow> split_at_occ p t = [t]"
  by (induction p t rule: count_occ.induct) (auto simp: Let_def split: if_splits)

lemma replaceAll_blocks_literal:
  assumes "p \<noteq> []" and "t \<noteq> []"
  shows "replaceAll_blocks RegExp p R False (TextBlock t # todo) done sm n
           = replaceAll_blocks RegExp p R False todo
               (done @ [TextBlock (join_with R (split_at_occ p t))])
               (sm \<or> 0 < count_occ p t) (n + count_occ p t)"
proof -
  have loop: "replace_literal_loop t p R 0 [] 0
                = Some (join_with R (split_at_occ p t), count_occ p t)"
    using replace_literal_loop_result [OF assms(1), of 0 t R "[]" 0]
    by (simp add: count_occ_split)
  have same: "join_with R (split_at_occ p t) = t" if "count_occ p t = 0"
    using that by (simp add: split_at_occ_no_occurrence)
  show ?thesis
    using assms(2) loop same by (auto simp: Let_def)
qed


lemma replaceAll_blocks_literal_count:
  assumes "p \<noteq> []"
  shows "NullBlock \<notin> set todo \<Longrightarrow>
     \<exists>bs sm'. replaceAll_blocks RegExp p R False todo done sm n
        = Some (Some bs, sm', n + sum_list (map (occurrences_in_block p) todo))"
proof (induction todo arbitrary: "done" sm n)
  case Nil
  show ?case by simp
next
  case (Cons b todo)
  from Cons.prems have nn: "NullBlock \<notin> set todo" and b: "b \<noteq> NullBlock" by auto
  show ?case
  proof (cases b)
    case (TextBlock t)
    show ?thesis
    proof (cases "t = []")
      case True
      with TextBlock Cons.IH [OF nn, of "done @ [b]" sm n] show ?thesis
        by (simp add: occurrences_in_block_def)
    next
      case False
      from Cons.IH [OF nn, of "done @ [TextBlock (join_with R (split_at_occ p t))]"
                      "sm \<or> 0 < count_occ p t" "n + count_occ p t"]
      show ?thesis
        unfolding TextBlock replaceAll_blocks_literal [OF assms False]
        by (simp add: occurrences_in_block_def add.assoc)
    qed
  next
    case (OtherBlock x)
    with Cons.IH [OF nn, of "done @ [b]" sm n] show ?thesis
      by (simp add: occurrences_in_block_def)
  next
    case NullBlock
    with b show ?thesis by simp
  qed
qed

lemma replaceAll_scenes_literal_count:
  assumes "p \<noteq> []"
  shows "\<forall>sc \<in> set scs. stext sc \<noteq> NullScene \<and> NullBlock \<notin> set (blocks_of (stext sc)) \<Longrightarrow>
     \<exists>scs' ts. replaceAll_scenes RegExp p R False scs n
        = Some (ScenesDone scs' (n + sum_list (map (occurrences_in_scene p) scs)) ts)"
proof (induction scs arbitrary: n)
  case Nil
  show ?case by simp
next
  case (Cons sc scs)
  from Cons.prems have
    rest: "\<forall>sc \<in> set scs. stext sc \<noteq> NullScene \<and> NullBlock \<notin> set (blocks_of (stext sc))"
    and here: "NullBlock \<notin> set (blocks_of (stext sc))" and nonnull: "stext sc \<noteq> NullScene"
    by auto
  have skip: ?case
    if "occurrences_in_scene p sc = 0"
      and "replaceAll_scenes RegExp p R False (sc # scs) n
             = map_option (scene_done sc ts0) (replaceAll_scenes RegExp p R False scs n)"
    for ts0
    using Cons.IH [OF rest, of n] that by (auto simp: scene_done_def)
  show ?case
  proof (cases "stext sc")
    case NullScene
    with nonnull show ?thesis by simp
  next
    case Unparsable
    then show ?thesis
      by (intro skip [of "[ErrorProcessingScene (title sc)]"])
         (simp_all add: occurrences_in_scene_def)
  next
    case NotArray
    then show ?thesis
      by (intro skip [of "[ErrorProcessingScene (title sc)]"])
         (simp_all add: occurrences_in_scene_def)
  next
    case StringBlocks
    then show ?thesis
      by (intro skip [of "[]"]) (simp_all add: occurrences_in_scene_def)
  next
    case (Blocks blocks)
    with here have "NullBlock \<notin> set blocks" by (simp add: blocks_of_def)
    from replaceAll_blocks_literal_count [OF assms this, of RegExp R "[]" False n]
    obtain bs sm' where bl: "replaceAll_blocks RegExp p R False blocks [] False n
        = Some (Some bs, sm', n + sum_list (map (occurrences_in_block p) blocks))"
      by blast
    from Cons.IH [OF rest, of "n + sum_list (map (occurrences_in_block p) blocks)"]
    obtain scs' ts where "replaceAll_scenes RegExp p R False scs
          (n + sum_list (map (occurrences_in_block p) blocks))
        = Some (ScenesDone scs' (n + sum_list (map (occurrences_in_block p) blocks)
                        + sum_list (map (occurrences_in_scene p) scs)) ts)"
      by blast
    moreover have "occurrences_in_scene p sc = sum_list (map (occurrences_in_block p) blocks)"
      using Blocks by (simp add: occurrences_in_scene_def)
    ultimately show ?thesis using Blocks bl
      by (simp add: add.assoc scene_done_def)
  qed
qed

text \<open>
  Where the count is right: for a loaded record (one with a first revision) with no null
  entry among its scenes and blocks, and a non-empty literal pattern,
  \<open>handleReplaceAllMatches\<close> returns, and the count it reports, in the status line and in
  the toast, is the number of non-overlapping occurrences of the pattern in the text
  blocks of all scenes of the first revision of the record as it was.
\<close>

lemma replaceAll_count_without_null_entries:
  assumes "frData s = Some d" and "revisions d \<noteq> []" and "findPattern \<noteq> []"
    and "no_null_entries d"
  shows "\<exists>s'. handleReplaceAllMatches RegExp now findPattern replaceText False s
                 = Some (Returned s')
           \<and> currentMatchDisplay s' = ReplacedCount (occurrences_in_record findPattern d)
           \<and> last (toasts s') = ReplacementsMade (occurrences_in_record findPattern d)"
proof -
  from assms(2) obtain rev0 revs where r: "revisions d = rev0 # revs"
    by (cases "revisions d") auto
  with assms(4) have "\<forall>sc \<in> set (scenes rev0).
      stext sc \<noteq> NullScene \<and> NullBlock \<notin> set (blocks_of (stext sc))"
    by (simp add: no_null_entries_def)
  from replaceAll_scenes_literal_count [OF assms(3) this, of RegExp replaceText 0]
  obtain scs' ts where "replaceAll_scenes RegExp findPattern replaceText False (scenes rev0) 0
      = Some (ScenesDone scs' (sum_list (map (occurrences_in_scene findPattern) (scenes rev0))) ts)"
    by auto
  with assms(1,3) r show ?thesis
    by (simp add: handleReplaceAllMatches_def occurrences_in_record_def)
qed

text \<open>
  Claim C5 fails in the code. The search skips a null entry of a \<open>blocks\<close> array
  (\<open>!block\<close>); replace-all reads its \<open>type\<close>, which throws, and the \<open>catch\<close> block of the
  scene shows a toast and goes on with the next scene. For the record with the blocks
  \<open>cat cat\<close>, null and \<open>cat\<close>, and the pattern \<open>cat\<close>, there are three occurrences, and
  find-next finds the three; replace-all reports two. (It replaces none: the new text of
  the first block is lost with the scene, and the record is stored again with a new date.)
\<close>

theorem replaceAll_count_failing_input:
  "occurrences_in_record ''cat'' null_block_record = 3
   \<and> findNext_all literal_engine ''cat'' False 4 (loaded null_block_record)
       = Some [(0, 0, 0), (0, 0, 4), (0, 2, 0)]
   \<and> handleReplaceAllMatches literal_engine 7 ''cat'' ''dog'' False (loaded null_block_record)
       = Some (Returned
           \<lparr>frData = Some (null_block_record
                      \<lparr>last_update_date := 7, last_backup_date := 7,
                       revisions := [\<lparr>date = 7,
                                      scenes = scenes (hd (revisions null_block_record))\<rparr>]\<rparr>),
            frPtr = origin, frMatch = None,
            currentMatchDisplay = ReplacedCount 2,
            toasts = [LoadedToast, ErrorProcessingScene (Some ''One''), ReplacementsMade 2]\<rparr>)"
  by code_simp

text \<open>
  A null entry of the \<open>scenes\<close> array makes the handler end with an exception: the
  session is left as it was, with no count in the status line and no closing toast.
\<close>

lemma null_scene_leaves_handler:
  "handleReplaceAllMatches literal_engine 7 ''cat'' ''dog'' False (loaded null_scene_record)
     = Some (Thrown (loaded null_scene_record))"
  by code_simp





text \<open>
  Had the replacement been passed to \<open>replace\<close> as a string, it would have been read as a
  template: \<open>$&\<close> would stand for the matched text, and \<open>$$\<close> for one dollar sign.
\<close>

lemma template_is_expanded:
  "String_replace (\<lambda>s k. if prefix ''a'' (drop k s) then Some 1 else None) ''banana''
     (ReplaceString ''$&'') = ''banana''"
  "String_replace (\<lambda>s k. if prefix ''a'' (drop k s) then Some 1 else None) ''banana''
     (ReplaceString ''$$'') = ''b$n$n$''"
  "String_replace (\<lambda>s k. if prefix ''a'' (drop k s) then Some 1 else None) ''banana''
     (ReplaceFunction (\<lambda>match. ''$$'')) = ''b$$n$$n$$''"
  by code_simp+

subsection \<open>Find-next with a pattern the engine rejects\<close>

lemma searched_reset_offset:
  "j < j' \<Longrightarrow> searched (reset_offset tp i j v) i j' b = searched tp i j' b"
  by (auto simp: searched_def search_start_def reset_offset_def at_block_def split: Block.splits)

lemma findNext_blocks_bad_regex_exact:
  assumes "RegExp pat = None"
  shows "findNext_blocks RegExp pat True i ttl blocks j tp
           = (if \<exists>j'. j \<le> j' \<and> j' < int (length blocks) \<and> searched tp i j' (block_at blocks j')
              then Inl RegexError
              else Inr (if \<exists>j'. j \<le> j' \<and> j' < int (length blocks) \<and> at_block tp i j'
                        then tp\<lparr>offset := Num 0\<rparr> else tp))"
proof (induction "nat (int (length blocks) - j)" arbitrary: j tp rule: less_induct)
  case less
  show ?case
  proof (cases "j < int (length blocks)")
    case False
    then show ?thesis
      by (subst findNext_blocks.simps) auto
  next
    case True
    let ?tp' = "reset_offset tp i j (Num 0)"
    have dec: "nat (int (length blocks) - (j + 1)) < nat (int (length blocks) - j)"
      using True by simp
    note IH = less.hyps [OF dec, of ?tp']
    have later: "(\<exists>j'. j + 1 \<le> j' \<and> j' < int (length blocks) \<and> searched ?tp' i j' (block_at blocks j'))
                 = (\<exists>j'. j + 1 \<le> j' \<and> j' < int (length blocks) \<and> searched tp i j' (block_at blocks j'))"
      using searched_reset_offset [of j _ tp i "Num 0"] by auto
    have split: "(\<exists>j'. j \<le> j' \<and> j' < int (length blocks) \<and> searched tp i j' (block_at blocks j'))
                 = (searched tp i j (block_at blocks j)
                    \<or> (\<exists>j'. j + 1 \<le> j' \<and> j' < int (length blocks) \<and> searched tp i j' (block_at blocks j')))"
      using True by (metis add1_zle_eq order.order_iff_strict)
    have at_split: "(\<exists>j'. j \<le> j' \<and> j' < int (length blocks) \<and> at_block tp i j')
                 = (at_block tp i j \<or> (\<exists>j'. j + 1 \<le> j' \<and> j' < int (length blocks) \<and> at_block tp i j'))"
      using True by (metis add1_zle_eq order.order_iff_strict)
    have at_later: "(\<exists>j'. j + 1 \<le> j' \<and> j' < int (length blocks) \<and> at_block ?tp' i j')
                 = (\<exists>j'. j + 1 \<le> j' \<and> j' < int (length blocks) \<and> at_block tp i j')"
      by (auto simp: reset_offset_def at_block_def)
    have excl: "at_block tp i j \<Longrightarrow> \<not> (\<exists>j'. j + 1 \<le> j' \<and> j' < int (length blocks) \<and> at_block tp i j')"
      by (auto simp: at_block_def)
    have res: "(if \<exists>j'. j + 1 \<le> j' \<and> j' < int (length blocks) \<and> at_block ?tp' i j'
                then ?tp'\<lparr>offset := Num 0\<rparr> else ?tp')
              = (if \<exists>j'. j \<le> j' \<and> j' < int (length blocks) \<and> at_block tp i j'
                 then tp\<lparr>offset := Num 0\<rparr> else tp)"
      unfolding at_later at_split using excl
      by (auto simp: reset_offset_def)
    show ?thesis
    proof (cases "searched tp i j (block_at blocks j)")
      case s: True
      then obtain t where t: "block_at blocks j = TextBlock t"
        and g: "\<not> (length t \<le> search_start tp i j \<and> 0 < length t)"
        by (auto simp: searched_def split: Block.splits)
      from g have g': "\<not> (length t \<le> (case (if at_block tp i j then offset tp else Num 0) of
                                      NaN \<Rightarrow> 0 | Num n \<Rightarrow> if n < 0 then 0 else nat n)
                           \<and> 0 < length t)"
        by (cases "at_block tp i j") (simp_all add: search_start_def)
      have "findNext_blocks RegExp pat True i ttl blocks j tp = Inl RegexError"
        using True t g' assms
        by (subst findNext_blocks.simps) (auto simp: Let_def search_block_next_def)
      with s split show ?thesis by simp
    next
      case s: False
      have "findNext_blocks RegExp pat True i ttl blocks j tp
              = findNext_blocks RegExp pat True i ttl blocks (j + 1) ?tp'"
      proof (cases "block_at blocks j")
        case (TextBlock t)
        with s have "length t \<le> (case (if at_block tp i j then offset tp else Num 0) of
                                      NaN \<Rightarrow> 0 | Num n \<Rightarrow> if n < 0 then 0 else nat n)
                           \<and> 0 < length t"
          by (cases "at_block tp i j") (simp_all add: searched_def search_start_def)
        with True TextBlock show ?thesis
          by (subst findNext_blocks.simps) (auto simp: Let_def)
      next
        case (OtherBlock x)
        with True show ?thesis by (subst findNext_blocks.simps) simp
      next
        case NullBlock
        with True show ?thesis by (subst findNext_blocks.simps) simp
      qed
      then show ?thesis
        unfolding IH later res using s split by simp
    qed
  qed
qed


lemma reaches_from_later:
  assumes "scene tp' = scene tp" and "scene tp \<noteq> Num i \<Longrightarrow> tp' = tp"
  shows "reaches_from scs tp' (i + 1) = reaches_from scs tp (i + 1)"
proof (cases "scene tp = Num i")
  case False
  with assms(2) show ?thesis by simp
next
  case True
  have "first_block tp' i' = first_block tp i' \<and> searched tp' i' j b = searched tp i' j b"
    if "i + 1 \<le> i'" for i' j b
    using that True assms(1)
    by (auto simp: first_block_def searched_def search_start_def at_block_def split: Block.splits)
  then show ?thesis
    unfolding reaches_from_def by metis
qed

lemma reaches_from_step:
  assumes "i < int (length scs)"
  shows "reaches_from scs tp i
           = ((\<exists>j. js_le (first_block tp i) (Num j)
                  \<and> j < int (length (blocks_of (stext (scene_at scs i))))
                  \<and> searched tp i j (block_at (blocks_of (stext (scene_at scs i))) j))
              \<or> reaches_from scs tp (i + 1))"
proof
  assume "reaches_from scs tp i"
  then obtain i' j where *: "i \<le> i'" "i' < int (length scs)"
      "js_le (first_block tp i') (Num j)"
      "j < int (length (blocks_of (stext (scene_at scs i'))))"
      "searched tp i' j (block_at (blocks_of (stext (scene_at scs i'))) j)"
    unfolding reaches_from_def by blast
  show "(\<exists>j. js_le (first_block tp i) (Num j)
                  \<and> j < int (length (blocks_of (stext (scene_at scs i))))
                  \<and> searched tp i j (block_at (blocks_of (stext (scene_at scs i))) j))
              \<or> reaches_from scs tp (i + 1)"
  proof (cases "i' = i")
    case True
    with * show ?thesis by blast
  next
    case False
    with *(1) have "i + 1 \<le> i'" by simp
    with * show ?thesis unfolding reaches_from_def by blast
  qed
next
  assume "(\<exists>j. js_le (first_block tp i) (Num j)
                  \<and> j < int (length (blocks_of (stext (scene_at scs i))))
                  \<and> searched tp i j (block_at (blocks_of (stext (scene_at scs i))) j))
              \<or> reaches_from scs tp (i + 1)"
  then show "reaches_from scs tp i"
  proof
    assume "\<exists>j. js_le (first_block tp i) (Num j)
                  \<and> j < int (length (blocks_of (stext (scene_at scs i))))
                  \<and> searched tp i j (block_at (blocks_of (stext (scene_at scs i))) j)"
    with assms show ?thesis unfolding reaches_from_def by (meson order_refl)
  next
    assume "reaches_from scs tp (i + 1)"
    then show ?thesis unfolding reaches_from_def by (meson add1_zle_eq less_imp_le)
  qed
qed

lemma findNext_scenes_unfold:
  assumes "i < int (length scs)"
    and "\<not> (stext (scene_at scs i) = Unparsable \<or> stext (scene_at scs i) = NullScene)"
  shows "findNext_scenes RegExp pat useRegex scs i tp
           = (case first_block tp i of
                NaN \<Rightarrow> findNext_scenes RegExp pat useRegex scs (i + 1) (reset_block tp i (Num 0))
              | Num j \<Rightarrow>
                  (case findNext_blocks RegExp pat useRegex i (title (scene_at scs i))
                          (blocks_of (stext (scene_at scs i))) j tp of
                     Inl out \<Rightarrow> out
                   | Inr tp' \<Rightarrow> findNext_scenes RegExp pat useRegex scs (i + 1)
                                  (reset_block tp' i (Num 0))))"
proof (cases "stext (scene_at scs i)")
  case NullScene
  with assms(2) show ?thesis by simp
next
  case Unparsable
  with assms(2) show ?thesis by simp
next
  case NotArray
  with assms(1) show ?thesis
    by (subst findNext_scenes.simps) (simp add: Let_def first_block_def)
next
  case StringBlocks
  with assms(1) show ?thesis
    by (subst findNext_scenes.simps) (simp add: Let_def first_block_def)
next
  case (Blocks bs)
  with assms(1) show ?thesis
    by (subst findNext_scenes.simps) (simp add: Let_def first_block_def)
qed

lemma findNext_scenes_bad_regex_exact:
  assumes "RegExp pat = None"
  shows "findNext_scenes RegExp pat True scs i tp
           = (if reaches_from scs tp i then RegexError else Miss)"
proof (induction "nat (int (length scs) - i)" arbitrary: i tp rule: less_induct)
  case less
  show ?case
  proof (cases "i < int (length scs)")
    case False
    then have "\<not> reaches_from scs tp i" by (auto simp: reaches_from_def)
    with False show ?thesis by (subst findNext_scenes.simps) simp
  next
    case True
    let ?sc = "scene_at scs i"
    let ?bs = "blocks_of (stext ?sc)"
    let ?here = "\<exists>j. js_le (first_block tp i) (Num j) \<and> j < int (length ?bs)
                     \<and> searched tp i j (block_at ?bs j)"
    have dec: "nat (int (length scs) - (i + 1)) < nat (int (length scs) - i)"
      using True by simp
    have rec: "findNext_scenes RegExp pat True scs (i + 1) tp'
                 = (if reaches_from scs tp (i + 1) then RegexError else Miss)"
      if "scene tp' = scene tp" and "scene tp \<noteq> Num i \<Longrightarrow> tp' = tp" for tp'
      using less.hyps [OF dec, of tp'] reaches_from_later [OF that, where scs = scs] by simp
    have rb: "scene (reset_block tp' i v) = scene tp
              \<and> (scene tp \<noteq> Num i \<longrightarrow> reset_block tp' i v = tp)"
      if "scene tp' = scene tp" and "scene tp \<noteq> Num i \<Longrightarrow> tp' = tp" for tp' v
      using that by (auto simp: reset_block_def)
    show ?thesis
    proof (cases "stext ?sc = Unparsable \<or> stext ?sc = NullScene")
      case u: True
      then have "\<not> ?here" by (auto simp: blocks_of_def block_at_def searched_def)
      moreover have "findNext_scenes RegExp pat True scs i tp
                       = findNext_scenes RegExp pat True scs (i + 1) (reset_block tp i (Num 0))"
        using True u by (subst findNext_scenes.simps) (auto simp: Let_def)
      ultimately show ?thesis
        using rec [of "reset_block tp i (Num 0)"] rb [of tp "Num 0"]
          reaches_from_step [OF True, of tp]
        by simp
    next
      case nu: False
      show ?thesis
      proof (cases "first_block tp i")
        case NaN
        then have "\<not> ?here" by simp
        moreover have "findNext_scenes RegExp pat True scs i tp
                         = findNext_scenes RegExp pat True scs (i + 1) (reset_block tp i (Num 0))"
          using NaN by (simp add: findNext_scenes_unfold [OF True nu])
        ultimately show ?thesis
          using rec [of "reset_block tp i (Num 0)"] rb [of tp "Num 0"]
            reaches_from_step [OF True, of tp]
          by simp
      next
        case (Num j0)
        let ?ex = "\<exists>j'. j0 \<le> j' \<and> j' < int (length ?bs) \<and> searched tp i j' (block_at ?bs j')"
        let ?tp' = "if \<exists>j'. j0 \<le> j' \<and> j' < int (length ?bs) \<and> at_block tp i j'
                    then tp\<lparr>offset := Num 0\<rparr> else tp"
        have here: "?here = ?ex" using Num by simp
        have unfold: "findNext_scenes RegExp pat True scs i tp
                = (case findNext_blocks RegExp pat True i (title ?sc) ?bs j0 tp of
                     Inl out \<Rightarrow> out
                   | Inr tp' \<Rightarrow> findNext_scenes RegExp pat True scs (i + 1)
                                  (reset_block tp' i (Num 0)))"
          using Num by (simp add: findNext_scenes_unfold [OF True nu])
        have tp': "scene ?tp' = scene tp \<and> (scene tp \<noteq> Num i \<longrightarrow> ?tp' = tp)"
          by (auto simp: at_block_def)
        show ?thesis
        proof (cases ?ex)
          case e: True
          have "findNext_blocks RegExp pat True i (title ?sc) ?bs j0 tp = Inl RegexError"
            using findNext_blocks_bad_regex_exact [of RegExp pat i "title ?sc" ?bs j0 tp] assms e
            by (simp only: if_True)
          then have "findNext_scenes RegExp pat True scs i tp = RegexError"
            unfolding unfold by simp
          with e here reaches_from_step [OF True, of tp] show ?thesis by simp
        next
          case e: False
          have "findNext_blocks RegExp pat True i (title ?sc) ?bs j0 tp = Inr ?tp'"
            using findNext_blocks_bad_regex_exact [of RegExp pat i "title ?sc" ?bs j0 tp] assms e
            by (simp only: if_False)
          then have "findNext_scenes RegExp pat True scs i tp
                  = findNext_scenes RegExp pat True scs (i + 1) (reset_block ?tp' i (Num 0))"
            unfolding unfold by simp
          then show ?thesis
            using rec [of "reset_block ?tp' i (Num 0)"] rb [of ?tp' "Num 0"] tp' e here
              reaches_from_step [OF True, of tp]
            by simp
        qed
      qed
    qed
  qed
qed

lemma findNextMatchInternal_bad_regex_exact:
  assumes "RegExp pat = None"
  shows "findNextMatchInternal RegExp pat True d p
           = (if reaches_block d p then RegexError else Miss)"
proof (cases "revisions d")
  case Nil
  then show ?thesis by (simp add: findNextMatchInternal_def reaches_block_def)
next
  case (Cons rev0 revs)
  show ?thesis
  proof (cases "scene (scan_start p)")
    case NaN
    with Cons show ?thesis
      by (simp add: findNextMatchInternal_def reaches_block_def scan_start_def Let_def)
  next
    case (Num n)
    have "\<not> reaches_from (scenes rev0) (scan_start p) n" if "int (length (scenes rev0)) \<le> n"
      using that by (auto simp: reaches_from_def)
    with Cons Num show ?thesis
      using findNext_scenes_bad_regex_exact [of RegExp pat "scenes rev0" n "scan_start p"] assms
      by (auto simp: findNextMatchInternal_def reaches_block_def scan_start_def Let_def
          split: jsnum.splits if_splits)
  qed
qed


text \<open>
  Claim C3, as the code has it. When the pattern of a regular-expression search is one the
  engine rejects, find-next never reports a match. It leaves the pointer and the record
  as they are, sets the last match to none, and writes "No more matches" in the status
  line; the "Regex Error" toast is shown exactly when the scan comes to a text block that
  it searches.
\<close>

theorem findNext_invalid_regex:
  assumes "frData s = Some d" and "RegExp findPattern = None"
  shows "frPtr (handleFindNextMatch RegExp findPattern True s) = frPtr s
         \<and> frData (handleFindNextMatch RegExp findPattern True s) = frData s
         \<and> frMatch (handleFindNextMatch RegExp findPattern True s) = None
         \<and> currentMatchDisplay (handleFindNextMatch RegExp findPattern True s)
             = NoMoreMatches findPattern
         \<and> toasts (handleFindNextMatch RegExp findPattern True s)
             = (if reaches_block d (frPtr s) then toasts s @ [RegexErrorToast] else toasts s)"
  using findNextMatchInternal_bad_regex_exact [of RegExp findPattern d "frPtr s"] assms
  by (simp add: handleFindNextMatch_def showToast_def)

lemma sample_found_reaches:
  "reaches_block (one_block_record ''abc'') (frPtr sample_found)"
proof -
  have "reaches_from [\<lparr>title = Some ''One'', stext = Blocks [TextBlock ''abc'']\<rparr>]
          \<lparr>scene = Num 0, block = Num 0, offset = Num 2\<rparr> 0"
    unfolding reaches_from_def
    by (intro exI [of _ 0])
       (simp add: first_block_def scene_at_def blocks_of_def block_at_def searched_def
          search_start_def at_block_def)
  then show ?thesis
    by (simp add: reaches_block_def one_block_record_def sample_found_def scan_start_def)
qed

lemma end_of_block_not_reached:
  "\<not> reaches_block (one_block_record ''abc'') \<lparr>scene = Num 0, block = Num 0, offset = Num 3\<rparr>"
proof -
  have "\<not> reaches_from [\<lparr>title = Some ''One'', stext = Blocks [TextBlock ''abc'']\<rparr>]
          \<lparr>scene = Num 0, block = Num 0, offset = Num 3\<rparr> 0"
  proof
    assume "reaches_from [\<lparr>title = Some ''One'', stext = Blocks [TextBlock ''abc'']\<rparr>]
          \<lparr>scene = Num 0, block = Num 0, offset = Num 3\<rparr> 0"
    then obtain i j where "0 \<le> i" "i < 1"
      and j: "js_le (first_block \<lparr>scene = Num 0, block = Num 0, offset = Num 3\<rparr> i) (Num j)"
        "j < int (length (blocks_of (stext (scene_at
                 [\<lparr>title = Some ''One'', stext = Blocks [TextBlock ''abc'']\<rparr>] i))))"
        "searched \<lparr>scene = Num 0, block = Num 0, offset = Num 3\<rparr> i j
           (block_at (blocks_of (stext (scene_at
                 [\<lparr>title = Some ''One'', stext = Blocks [TextBlock ''abc'']\<rparr>] i))) j)"
      unfolding reaches_from_def by auto
    then have i: "i = 0" by simp
    from j have "j = 0"
      unfolding i by (simp add: first_block_def scene_at_def blocks_of_def)
    with j(3) show False
      unfolding i
      by (simp add: scene_at_def blocks_of_def block_at_def searched_def search_start_def
          at_block_def)
  qed
  then show ?thesis
    by (simp add: reaches_block_def one_block_record_def scan_start_def)
qed

theorem findNext_invalid_regex_witness:
  "frData sample_found = Some (one_block_record ''abc'') \<and> literal_engine ''['' = None
   \<and> reaches_block (one_block_record ''abc'') (frPtr sample_found)
   \<and> frPtr (handleFindNextMatch literal_engine ''['' True sample_found) = frPtr sample_found
   \<and> frMatch (handleFindNextMatch literal_engine ''['' True sample_found) = None
   \<and> currentMatchDisplay (handleFindNextMatch literal_engine ''['' True sample_found)
       = NoMoreMatches ''[''
   \<and> toasts (handleFindNextMatch literal_engine ''['' True sample_found)
       = toasts sample_found @ [RegexErrorToast]"
proof -
  have d: "frData sample_found = Some (one_block_record ''abc'')"
    by (simp add: sample_found_def)
  have e: "literal_engine ''['' = None"
    by (simp add: literal_engine_def)
  from findNext_invalid_regex [of sample_found "one_block_record ''abc''" literal_engine "''[''"]
    d e sample_found_reaches
  show ?thesis by simp
qed

text \<open>
  The claim as stated fails: after a match has been found, a find-next with the pattern
  \<open>[\<close> clears the stored match and reports "No more matches".
\<close>

theorem findNext_invalid_regex_counterexample:
  "literal_engine ''['' = None
   \<and> frMatch sample_found \<noteq> None
   \<and> frMatch (handleFindNextMatch literal_engine ''['' True sample_found) = None
   \<and> currentMatchDisplay (handleFindNextMatch literal_engine ''['' True sample_found)
       = NoMoreMatches ''[''"
  by code_simp

subsection \<open>Forward and backward search\<close>

text \<open>
  Claim C1 at the record whose only block is \<open>aaa\<close>, with the literal pattern \<open>aa\<close>:
  find-next from the origin visits offset 0 only, find-previous from the end visits
  offsets 1 and 0. The literal loop of the backward search steps by one character from
  each occurrence, so it also collects occurrences that overlap the previous one; the
  forward search, the regular-expression loop of the backward search and replace-all
  step past the whole occurrence.
\<close>

theorem search_symmetry_failing_input:
  "findNext_all literal_engine ''aa'' False 5 (loaded (one_block_record ''aaa''))
     = Some [(0, 0, 0)]
   \<and> findPrevious_all literal_engine ''aa'' False 5
       ((loaded (one_block_record ''aaa''))\<lparr>frPtr := unset_pointer\<rparr>)
     = Some [(0, 0, 1), (0, 0, 0)]
   \<and> findPrevious_all literal_engine ''aa'' True 5
       ((loaded (one_block_record ''aaa''))\<lparr>frPtr := unset_pointer\<rparr>)
     = Some [(0, 0, 0)]"
  by code_simp

subsection \<open>Resolution of the chapter paths\<close>

lemma dedup_loop_subset: "set (dedup_loop chs [] seen) \<subseteq> set chs"
proof (induction chs arbitrary: seen)
  case Nil
  show ?case by simp
next
  case (Cons c chs)
  show ?case
    using Cons.IH [of seen] Cons.IH [of "insert (href c) seen"]
      dedup_loop_acc [of chs "[c]" "insert (href c) seen"]
    by auto
qed

lemma chapter_of_entry_href:
  "c \<in> set (chapter_of_entry P baseDir e) \<Longrightarrow>
     \<exists>s. src e = Some s \<and> href c = resolvePath P (before_hash s) baseDir"
  by (cases "src e") (auto simp: chapter_of_entry_def truthy_def split: if_splits)

lemma findOpfPath_dir: "findOpfPath epub = Some (opfPath, opfDir) \<Longrightarrow> opfDir = dir_of opfPath"
  by (auto simp: findOpfPath_def split: option.splits if_splits)

text \<open>
  Claim C2, as the code has it. Every path in the resolved chapter list is the reference
  of an entry of the table-of-contents document (NCX or nav), cut at \<open>#\<close> and resolved
  against the directory of the package document.
\<close>

theorem hrefs_resolved_against_package_dir:
  assumes "findOpfPath epub = Some (opfPath, opfDir)"
    and "c \<in> set (fst (getChapterListFromEpub P epub))"
  shows "opfDir = dir_of opfPath
         \<and> (\<exists>tocPath tocFile e s. epub tocPath = Some tocFile \<and> e \<in> toc_entries_in tocFile
               \<and> src e = Some s \<and> href c = resolvePath P (before_hash s) opfDir)"
proof
  show "opfDir = dir_of opfPath" using assms(1) by (rule findOpfPath_dir)
next
  from assms obtain tocPath tocFile chs where
    f: "epub tocPath = Some tocFile"
    and chs: "c \<in> set (deduplicateChapters chs)"
    and src: "(\<exists>d. as_xml tocFile = Some d \<and> chs = extractChaptersFromNcx P d opfDir)
              \<or> (\<exists>d. as_html tocFile = Some d \<and> chs = extractChaptersFromNav P d opfDir)"
    by (auto simp: getChapterListFromEpub_def Let_def readFileFromZip_def deduplicateChapters_def
        split: option.splits prod.splits toc_type.splits)
  from chs have "c \<in> set chs"
    using dedup_loop_subset [of chs "{}"] by (auto simp: deduplicateChapters_def)
  with src have "\<exists>e. e \<in> toc_entries_in tocFile \<and> c \<in> set (chapter_of_entry P opfDir e)"
    by (auto simp: extractChaptersFromNcx_def extractChaptersFromNav_def toc_entries_in_def)
  then obtain e where "e \<in> toc_entries_in tocFile" "c \<in> set (chapter_of_entry P opfDir e)"
    by blast
  with f chapter_of_entry_href [of c P opfDir e]
  show "\<exists>tocPath tocFile e s. epub tocPath = Some tocFile \<and> e \<in> toc_entries_in tocFile
          \<and> src e = Some s \<and> href c = resolvePath P (before_hash s) opfDir"
    by blast
qed

lemma nested_toc_chapters:
  "findOpfPath nested_toc_epub = Some (''OEBPS/content.opf'', ''OEBPS'')"
  "fst (getChapterListFromEpub sample_platform nested_toc_epub)
     = [\<lparr>chapter_title = ''One'', href = ''OEBPS/c1.xhtml''\<rparr>]"
  by code_simp+

theorem hrefs_resolved_against_package_dir_witness:
  "findOpfPath nested_toc_epub = Some (''OEBPS/content.opf'', ''OEBPS'')
   \<and> \<lparr>chapter_title = ''One'', href = ''OEBPS/c1.xhtml''\<rparr>
       \<in> set (fst (getChapterListFromEpub sample_platform nested_toc_epub))
   \<and> ''OEBPS'' = dir_of ''OEBPS/content.opf''
   \<and> (\<exists>tocPath tocFile e s. nested_toc_epub tocPath = Some tocFile \<and> e \<in> toc_entries_in tocFile
         \<and> src e = Some s
         \<and> ''OEBPS/c1.xhtml'' = resolvePath sample_platform (before_hash s) ''OEBPS'')"
proof -
  have m: "\<lparr>chapter_title = ''One'', href = ''OEBPS/c1.xhtml''\<rparr>
             \<in> set (fst (getChapterListFromEpub sample_platform nested_toc_epub))"
    by (simp add: nested_toc_chapters)
  have d: "''OEBPS'' = dir_of ''OEBPS/content.opf''"
    by code_simp
  from hrefs_resolved_against_package_dir [OF nested_toc_chapters(1) m, THEN conjunct2]
    nested_toc_chapters(1) m d
  show ?thesis by simp
qed

text \<open>
  The claim as stated fails when the table of contents is not in the directory of the
  package document: with the table of contents at \<open>OEBPS/nav/toc.ncx\<close>, its entry
  \<open>c1.xhtml\<close> is resolved to \<open>OEBPS/c1.xhtml\<close>, while resolving against the directory of
  the table of contents gives \<open>OEBPS/nav/c1.xhtml\<close>.
\<close>

theorem toc_directory_counterexample:
  "map_option fst
     (readFileFromZip nested_toc_epub (resolvePath sample_platform ''nav/toc.ncx'' ''OEBPS''))
     = Some ''OEBPS/nav/toc.ncx''
   \<and> map href (fst (getChapterListFromEpub sample_platform nested_toc_epub)) = [''OEBPS/c1.xhtml'']
   \<and> resolvePath sample_platform ''c1.xhtml'' (dir_of ''OEBPS/nav/toc.ncx'') = ''OEBPS/nav/c1.xhtml''"
  by code_simp

subsection \<open>Chapter extraction\<close>

lemma trim_Nil [simp]: "trim [] = []"
  by (simp add: trim_def)

lemma extract_chapter_file_at:
  "(case extract_chapter P epub rm n k entry of None \<Rightarrow> [] | Some f \<Rightarrow> [f])
     = (case chapter_text P epub rm n entry of
          Some t \<Rightarrow> if trim t \<noteq> [] then [(txtFilename k, t)] else []
        | None \<Rightarrow> [])"
  by (auto simp: extract_chapter_def chapter_text_def Let_def split: option.splits)

lemma extract_loop_index:
  "extract_loop P epub rm n chs k
     = concat (map (\<lambda>i. case chapter_text P epub rm n (chs ! i) of
                           Some t \<Rightarrow> if trim t \<noteq> [] then [(txtFilename (k + i), t)] else []
                         | None \<Rightarrow> [])
                 [0..<length chs])"
proof (induction chs arbitrary: k)
  case Nil
  show ?case by simp
next
  case (Cons c chs)
  have upt: "[0..<length (c # chs)] = 0 # map Suc [0..<length chs]"
    by (simp add: upt_conv_Cons map_Suc_upt del: upt_Suc)
  have "extract_loop P epub rm n (c # chs) k
          = (case extract_chapter P epub rm n k c of None \<Rightarrow> [] | Some f \<Rightarrow> [f])
            @ extract_loop P epub rm n chs (k + 1)"
    by (simp split: option.splits)
  also have "\<dots> = (case chapter_text P epub rm n c of
                       Some t \<Rightarrow> if trim t \<noteq> [] then [(txtFilename k, t)] else []
                     | None \<Rightarrow> [])
                    @ concat (map (\<lambda>i. case chapter_text P epub rm n (chs ! i) of
                           Some t \<Rightarrow> if trim t \<noteq> [] then [(txtFilename (k + 1 + i), t)] else []
                         | None \<Rightarrow> [])
                       [0..<length chs])"
    by (simp only: extract_chapter_file_at Cons.IH [of "k + 1"])
  also have "\<dots> = concat (map (\<lambda>i. case chapter_text P epub rm n ((c # chs) ! i) of
                           Some t \<Rightarrow> if trim t \<noteq> [] then [(txtFilename (k + i), t)] else []
                         | None \<Rightarrow> [])
                 [0..<length (c # chs)])"
    unfolding upt by (simp add: comp_def cong: option.case_cong if_cong)
  finally show ?case .
qed

lemma extract_loop_nonblank:
  "(name, t) \<in> set (extract_loop P epub rm n chs k) \<Longrightarrow> trim t \<noteq> []"
  by (induction chs arbitrary: k)
     (auto simp: extract_chapter_def Let_def split: option.splits if_splits)

text \<open>
  Claim C7, as the code has it. When the extraction produces files, they are, in order,
  the files of the positions of the resolved chapter list whose chapter is found in the
  archive and has text that is not blank; the file of position \<open>i\<close> (from 0) is named by
  the number \<open>i + 1\<close>, padded with zeros on the left to at least two digits. A chapter
  that is left out leaves a gap in the numbers.
\<close>

theorem files_numbered_by_position:
  assumes "handleExtractChapters P epub rm n = Inr (files, filesAdded)"
  shows "files = concat (map (file_at P epub rm n (fst (getChapterListFromEpub P epub)))
                           [0..<length (fst (getChapterListFromEpub P epub))])
         \<and> filesAdded = length files
         \<and> (\<forall>(name, t) \<in> set files. trim t \<noteq> [])
         \<and> (\<forall>i. txtFilename i = ''C'' @ padStart (String_of_nat (i + 1)) 2 (CHR ''0'') @ ''.txt''
                \<and> 2 \<le> length (padStart (String_of_nat (i + 1)) 2 (CHR ''0'')))"
proof -
  let ?chs = "fst (getChapterListFromEpub P epub)"
  from assms have f: "files = extract_loop P epub rm n ?chs 0" and n: "filesAdded = length files"
    by (auto simp: handleExtractChapters_def Let_def split: if_splits)
  have "files = concat (map (file_at P epub rm n ?chs) [0..<length ?chs])"
    unfolding f extract_loop_index
    by (simp add: file_at_def [abs_def] cong: option.case_cong if_cong)
  moreover have "\<forall>(name, t) \<in> set files. trim t \<noteq> []"
    unfolding f using extract_loop_nonblank by fast
  moreover have "\<forall>i. txtFilename i = ''C'' @ padStart (String_of_nat (i + 1)) 2 (CHR ''0'') @ ''.txt''
                \<and> 2 \<le> length (padStart (String_of_nat (i + 1)) 2 (CHR ''0''))"
    by (auto simp: txtFilename_def padStart_def)
  ultimately show ?thesis using n by blast
qed

lemma flat_epub_chapters:
  "fst (getChapterListFromEpub sample_platform flat_epub)
     = [\<lparr>chapter_title = ''One'', href = ''OEBPS/c1.xhtml''\<rparr>,
        \<lparr>chapter_title = ''Two'', href = ''OEBPS/c2.xhtml''\<rparr>]"
  by code_simp

lemma txtFilename_examples:
  "txtFilename 0 = ''C01.txt''" "txtFilename 1 = ''C02.txt''" "txtFilename (Suc 0) = ''C02.txt''"
  by code_simp+

lemma flat_epub_texts:
  "chapter_text sample_platform flat_epub False 0
     \<lparr>chapter_title = ''One'', href = ''OEBPS/c1.xhtml''\<rparr> = Some []"
  "chapter_text sample_platform flat_epub False 0
     \<lparr>chapter_title = ''Two'', href = ''OEBPS/c2.xhtml''\<rparr> = Some [0xFFFD, 0x48, 0x69]"
  by (simp_all add: chapter_text_def flat_epub_def text_file_def decode_chapter_def
      sample_platform_def utf8_decode_def utf8_lead_def remove_lines_def trim_def js_space_def)

lemma trim_examples: "trim [0xFFFD, 0x48, 0x69] = [0xFFFD, 0x48, 0x69]"
  by (simp add: trim_def js_space_def)

lemma flat_epub_extracted:
  "handleExtractChapters sample_platform flat_epub False 0
     = Inr ([(''C02.txt'', [0xFFFD, 0x48, 0x69])], 1)"
  by (simp add: handleExtractChapters_def flat_epub_chapters extract_loop_index flat_epub_texts
      trim_examples txtFilename_examples upt_conv_Cons)

lemma flat_epub_files:
  "length (fst (getChapterListFromEpub sample_platform flat_epub)) = 2"
  "file_at sample_platform flat_epub False 0
     (fst (getChapterListFromEpub sample_platform flat_epub)) 0 = []"
  "file_at sample_platform flat_epub False 0
     (fst (getChapterListFromEpub sample_platform flat_epub)) 1
     = [(''C02.txt'', [0xFFFD, 0x48, 0x69])]"
  by (simp_all add: flat_epub_chapters file_at_def flat_epub_texts trim_examples
      txtFilename_examples)

theorem files_numbered_by_position_witness:
  "handleExtractChapters sample_platform flat_epub False 0
     = Inr ([(''C02.txt'', [0xFFFD, 0x48, 0x69])], 1)
   \<and> [(''C02.txt'', [0xFFFD, 0x48, 0x69])]
       = concat (map (file_at sample_platform flat_epub False 0
                        (fst (getChapterListFromEpub sample_platform flat_epub)))
                   [0..<length (fst (getChapterListFromEpub sample_platform flat_epub))])
   \<and> trim [0xFFFD, 0x48, 0x69] \<noteq> []"
  using files_numbered_by_position [OF flat_epub_extracted] flat_epub_extracted
  by simp

text \<open>
  The claim as stated fails: with a blank first chapter the only file is \<open>C02.txt\<close>,
  while the first number over the included chapters would give \<open>C01.txt\<close>.
\<close>

theorem consecutive_numbering_counterexample:
  "handleExtractChapters sample_platform flat_epub False 0
     = Inr ([(''C02.txt'', [0xFFFD, 0x48, 0x69])], 1)
   \<and> txtFilename 0 = ''C01.txt''"
  by (simp add: handleExtractChapters_def flat_epub_chapters extract_loop_index flat_epub_texts
      trim_examples txtFilename_examples upt_conv_Cons)

subsection \<open>Decoding the bytes of a chapter\<close>

text \<open>
  The UTF-8 decoder of the platform does not throw when it is not fatal, so the \<open>catch\<close>
  block of the chapter loop is never entered: the text of a chapter is always what the
  UTF-8 decoder makes of its bytes.
\<close>

lemma utf8_decoder_not_fatal: "utf8_decoder False cp needed lower upper bs \<noteq> None"
  by (induction "False" cp needed lower upper bs rule: utf8_decoder.induct)
     (auto split: option.splits)

lemma utf8_decode_not_fatal: "utf8_decode False chapterBytes \<noteq> None"
  by (simp add: utf8_decode_def Let_def utf8_decoder_not_fatal)

lemma latin1_decoder_not_used:
  "\<exists>chapterHtml. utf8_decode False chapterBytes = Some chapterHtml
     \<and> decode_chapter sample_platform chapterBytes = chapterHtml"
  using utf8_decode_not_fatal [of chapterBytes]
  by (cases "utf8_decode False chapterBytes") (simp_all add: decode_chapter_def sample_platform_def)

text \<open>
  Claim C6 fails in the code. The bytes \<open>FF 48 69\<close> are not UTF-8: a decoder that
  rejects malformed input throws on them, and their Latin-1 decoding is U+00FF followed
  by \<open>Hi\<close>. The code makes its decoder with \<open>fatal: false\<close>: the chapter is decoded to
  U+FFFD followed by \<open>Hi\<close>, and that text, not the Latin-1 decoding, is what the chapter
  loop writes.
\<close>

theorem latin1_fallback_failing_input:
  "TextDecoder_utf8 sample_platform True [CHR 0xFF, CHR ''H'', CHR ''i''] = None
   \<and> TextDecoder_latin1 sample_platform [CHR 0xFF, CHR ''H'', CHR ''i''] = [0xFF, 0x48, 0x69]
   \<and> decode_chapter sample_platform [CHR 0xFF, CHR ''H'', CHR ''i''] = [0xFFFD, 0x48, 0x69]
   \<and> extract_loop sample_platform flat_epub False 0
         [\<lparr>chapter_title = ''Two'', href = ''OEBPS/c2.xhtml''\<rparr>] 1
       = [(''C02.txt'', [0xFFFD, 0x48, 0x69])]"
  by (simp add: sample_platform_def utf8_decode_def utf8_lead_def windows_1252_decode_def
      decode_chapter_def extract_chapter_def flat_epub_def text_file_def remove_lines_def
      trim_def js_space_def txtFilename_examples)

end
